theory Spec2Isabelle
  imports Complex_Main
begin

section \<open>Data model of the converter (task_02_extract_to_parquet.py)\<close>

text \<open>
  The conversion works on pandas data frames. A frame is kept here as the ordered list of
  its columns, each a name with the column's values; \<open>read_csv\<close> makes the names of one
  frame distinct. Every column is read with \<open>dtype=str\<close>, \<open>keep_default_na=False\<close>, so a
  freshly read column has dtype \<open>object\<close> and holds strings only. Coercion replaces a column
  by an \<open>object\<close> column of \<open>datetime.date\<close> values and \<open>NaT\<close>, by a nullable \<open>Int64\<close> column or
  by a \<open>float64\<close> column whose \<open>NaN\<close> is \<open>None\<close>.

  Strings are byte lists; the double quote is the byte \<open>0x22\<close>, which no multi-byte UTF-8
  sequence contains, so tests on the first and last character agree with Python's on code
  points. Numbers parsed from text are exact rationals: rounding error of \<open>float64\<close> and the
  values \<open>inf\<close> are outside this model.
\<close>

datatype date = Date (year: nat) (month: nat) (day: nat)

datatype obj = Str string | DateObj date | NaT

datatype column =
    ObjectCol "obj list"
  | Int64Col "int option list"
  | Float64Col "rat option list"

type_synonym dataframe = "(string \<times> column) list"

datatype error =
    ColumnLimitError      \<comment> \<open>ValueError of \<open>_apply_column_limit\<close>\<close>
  | NoTsvMembers          \<comment> \<open>ValueError "No TSV members found"\<close>
  | SchemaMismatch        \<comment> \<open>ValueError of \<open>ParquetWriter.write_table\<close>\<close>
  | ArrowTypeError        \<comment> \<open>\<open>Table.from_pandas\<close> on a column of mixed objects\<close>
  | ChunksizeError        \<comment> \<open>ValueError of \<open>read_csv\<close> for a chunk size below 1\<close>
  | ReaderError           \<comment> \<open>the text reader fails in the middle of the stream\<close>
  | WriteError            \<comment> \<open>I/O error while a row group is persisted\<close>
  | ArchiveError          \<comment> \<open>the archive is missing or is not a zip file\<close>

definition columns :: "dataframe \<Rightarrow> string list" where
  "columns df = map fst df"

section \<open>Module constants\<close>

definition N_COLUMNS :: "nat option" where
  "N_COLUMNS = None"

definition SIZE_THRESHOLD_BYTES :: nat where
  "SIZE_THRESHOLD_BYTES = 200 * 1024 * 1024"

definition DEFAULT_CHUNKSIZE :: nat where
  "DEFAULT_CHUNKSIZE = 500000"

section \<open>Python string helpers\<close>

definition dquote :: char where
  "dquote = CHR 0x22"

definition startswith :: "string \<Rightarrow> string \<Rightarrow> bool" where
  "startswith s p = (take (length p) s = p)"

definition endswith :: "string \<Rightarrow> string \<Rightarrow> bool" where
  "endswith s p = (length p \<le> length s \<and> drop (length s - length p) s = p)"

text \<open>Python's \<open>xs[i:j]\<close>: a negative index counts from the end, both are clamped.\<close>

definition py_index :: "nat \<Rightarrow> int \<Rightarrow> nat" where
  "py_index n i = (if i < 0 then nat (max 0 (int n + i)) else min n (nat i))"

definition py_slice :: "int \<Rightarrow> int \<Rightarrow> 'a list \<Rightarrow> 'a list" where
  "py_slice i j xs =
     (let a = py_index (length xs) i; b = py_index (length xs) j
      in take (b - a) (drop a xs))"

section \<open>Row normalizer: \<open>_strip_outer_quotes\<close>\<close>

text \<open>The lambda applied to every value of an \<open>object\<close> column.\<close>

fun strip_cell :: "obj \<Rightarrow> obj" where
  "strip_cell (Str x) =
     (if startswith x [dquote] \<and> endswith x [dquote] then Str (py_slice 1 (- 1) x) else Str x)"
| "strip_cell v = v"

fun strip_col :: "column \<Rightarrow> column" where
  "strip_col (ObjectCol xs) = ObjectCol (map strip_cell xs)"
| "strip_col c = c"

definition strip_outer_quotes :: "dataframe \<Rightarrow> dataframe" where
  "strip_outer_quotes df = map (\<lambda>(n, c). (n, strip_col c)) df"

section \<open>Library parsers\<close>

text \<open>
  Two functions of pandas decide what a single text value means; they are parameters of the
  model. \<open>to_datetime\<close> is \<open>pd.to_datetime(v, format='%Y-%m-%d', errors='coerce')\<close> on one
  value followed by \<open>.dt.date\<close>: the calendar date when the value matches the format, \<open>None\<close>
  (\<open>NaT\<close>) when it does not. \<open>to_numeric\<close> is \<open>pd.to_numeric(v, errors='coerce')\<close> on one
  value: the number, or \<open>None\<close> (\<open>NaN\<close>) when the text is not numeric. A nullable \<open>Int64\<close> value
  is an unbounded integer here: the 64-bit range of the column type is outside this model.
\<close>

record pandas =
  to_datetime :: "string \<Rightarrow> date option"
  to_numeric :: "string \<Rightarrow> rat option"

section \<open>Frame access\<close>

text \<open>\<open>df[col] = v\<close> for a name among the columns: the column keeps its position.\<close>

definition set_column :: "string \<Rightarrow> column \<Rightarrow> dataframe \<Rightarrow> dataframe" where
  "set_column col v df = map (\<lambda>(n, c). if n = col then (n, v) else (n, c)) df"

section \<open>Column limit: \<open>_apply_column_limit\<close>\<close>

definition apply_column_limit_to :: "nat option \<Rightarrow> dataframe \<Rightarrow> error + dataframe" where
  "apply_column_limit_to limit df =
     (case limit of
        None \<Rightarrow> Inr df
      | Some n \<Rightarrow> if length df < n then Inl ColumnLimitError else Inr (take n df))"

definition apply_column_limit :: "dataframe \<Rightarrow> error + dataframe" where
  "apply_column_limit df = apply_column_limit_to N_COLUMNS df"

section \<open>Schema resolver: \<open>_get_column_types\<close>\<close>

text \<open>
  The schema artifact is \<open>None\<close> when the file is missing or cannot be read as a list of
  fields, otherwise the list of its fields, each a name with its declared type. A set of
  names is kept as the list of its members in the order the loop visits them.
\<close>

type_synonym schema_file = "(string \<times> string) list option"

definition get_column_types :: "schema_file \<Rightarrow> string list option \<times> string list option" where
  "get_column_types schema_file =
     (case schema_file of
        None \<Rightarrow> (None, None)
      | Some schema \<Rightarrow>
          (let date_columns = remdups (map fst (filter (\<lambda>field. snd field = ''DATE'') schema));
               integer_columns =
                 remdups (map fst (filter (\<lambda>field. snd field = ''INTEGER'') schema))
           in (if date_columns \<noteq> [] then Some date_columns else None,
               if integer_columns \<noteq> [] then Some integer_columns else None)))"

section \<open>Type coercer: \<open>_parse_date_columns\<close>\<close>

fun to_date_cell :: "pandas \<Rightarrow> obj \<Rightarrow> obj" where
  "to_date_cell L (Str s) = (case to_datetime L s of None \<Rightarrow> NaT | Some d \<Rightarrow> DateObj d)"
| "to_date_cell L (DateObj d) = DateObj d"
| "to_date_cell L NaT = NaT"

text \<open>
  The callers coerce dates first, on columns of strings. A numeric column never matches
  the format; that case is not reached from the callers.
\<close>

fun date_col :: "pandas \<Rightarrow> column \<Rightarrow> column" where
  "date_col L (ObjectCol xs) = ObjectCol (map (to_date_cell L) xs)"
| "date_col L (Int64Col xs) = ObjectCol (map (\<lambda>_. NaT) xs)"
| "date_col L (Float64Col xs) = ObjectCol (map (\<lambda>_. NaT) xs)"

definition parse_date_step :: "pandas \<Rightarrow> string \<Rightarrow> dataframe \<Rightarrow> dataframe" where
  "parse_date_step L col df =
     (case map_of df col of
        None \<Rightarrow> df
      | Some c \<Rightarrow> set_column col (date_col L c) df)"

definition parse_date_columns :: "pandas \<Rightarrow> dataframe \<Rightarrow> string list option \<Rightarrow> dataframe" where
  "parse_date_columns L df date_columns =
     (case date_columns of
        None \<Rightarrow> df
      | Some cols \<Rightarrow> fold (parse_date_step L) cols df)"

section \<open>Type coercer: \<open>_parse_integer_columns\<close>\<close>

fun numeric_cell :: "pandas \<Rightarrow> obj \<Rightarrow> rat option" where
  "numeric_cell L (Str s) = to_numeric L s"
| "numeric_cell L v = None"

fun numeric_series_of :: "pandas \<Rightarrow> column \<Rightarrow> rat option list" where
  "numeric_series_of L (ObjectCol xs) = map (numeric_cell L) xs"
| "numeric_series_of L (Int64Col xs) = map (map_option of_int) xs"
| "numeric_series_of L (Float64Col xs) = xs"

text \<open>\<open>Series.round()\<close>: to the nearest integer, a tie to the even neighbour.\<close>

definition np_round :: "rat \<Rightarrow> int" where
  "np_round x =
     (let f = \<lfloor>x\<rfloor>; d = x - of_int f
      in if d < 1 / 2 then f else if 1 / 2 < d then f + 1 else if even f then f else f + 1)"

definition is_whole :: "rat \<Rightarrow> bool" where
  "is_whole v = (\<bar>v - of_int (np_round v)\<bar> < 1 / 10 ^ 10)"

definition non_null :: "'a option list \<Rightarrow> 'a list" where
  "non_null xs = map the (filter (\<lambda>v. v \<noteq> None) xs)"

definition integer_col :: "pandas \<Rightarrow> column \<Rightarrow> column" where
  "integer_col L c =
     (let numeric_series = numeric_series_of L c;
          non_null_values = non_null numeric_series
      in if non_null_values \<noteq> [] then
           if list_all is_whole non_null_values
           then Int64Col (map (map_option np_round) numeric_series)
           else Float64Col numeric_series
         else Int64Col (map (\<lambda>_. None) numeric_series))"

definition parse_integer_step :: "pandas \<Rightarrow> string \<Rightarrow> dataframe \<Rightarrow> dataframe" where
  "parse_integer_step L col df =
     (case map_of df col of
        None \<Rightarrow> df
      | Some c \<Rightarrow> set_column col (integer_col L c) df)"

definition parse_integer_columns :: "pandas \<Rightarrow> dataframe \<Rightarrow> string list option \<Rightarrow> dataframe" where
  "parse_integer_columns L df integer_columns =
     (case integer_columns of
        None \<Rightarrow> df
      | Some cols \<Rightarrow> fold (parse_integer_step L) cols df)"

section \<open>Arrow tables: \<open>pa.Table.from_pandas\<close>\<close>

text \<open>
  The Arrow type of a column is inferred from the chunk at hand. A nullable integer column
  is \<open>int64\<close>, a float column \<open>double\<close>. An \<open>object\<close> column is inferred from its values that
  are not null: \<open>string\<close> when all are strings, \<open>date32\<close> when all are dates, \<open>null\<close> when there
  is none, and an error when they are mixed.
\<close>

datatype arrow_type = ArrowNull | ArrowString | ArrowDate32 | ArrowInt64 | ArrowDouble

type_synonym arrow_schema = "(string \<times> arrow_type) list"

fun is_str :: "obj \<Rightarrow> bool" where
  "is_str (Str s) = True"
| "is_str v = False"

fun is_date :: "obj \<Rightarrow> bool" where
  "is_date (DateObj d) = True"
| "is_date v = False"

fun arrow_type_of :: "column \<Rightarrow> error + arrow_type" where
  "arrow_type_of (Int64Col xs) = Inr ArrowInt64"
| "arrow_type_of (Float64Col xs) = Inr ArrowDouble"
| "arrow_type_of (ObjectCol xs) =
     (let vs = filter (\<lambda>v. v \<noteq> NaT) xs
      in if vs = [] then Inr ArrowNull
         else if list_all is_str vs then Inr ArrowString
         else if list_all is_date vs then Inr ArrowDate32
         else Inl ArrowTypeError)"

fun schema_of :: "dataframe \<Rightarrow> error + arrow_schema" where
  "schema_of [] = Inr []"
| "schema_of ((n, c) # df) =
     (case arrow_type_of c of
        Inl e \<Rightarrow> Inl e
      | Inr t \<Rightarrow> (case schema_of df of Inl e \<Rightarrow> Inl e | Inr sch \<Rightarrow> Inr ((n, t) # sch)))"

record table =
  table_schema :: arrow_schema
  table_data :: dataframe

definition from_pandas :: "dataframe \<Rightarrow> error + table" where
  "from_pandas df =
     (case schema_of df of
        Inl e \<Rightarrow> Inl e
      | Inr sch \<Rightarrow> Inr \<lparr> table_schema = sch, table_data = df \<rparr>)"

section \<open>Files, directories and the log\<close>

text \<open>
  A path is the list of its components. The world holds what the conversion reads and
  writes: the archives with their members, the schema artifacts, the Parquet files with
  the row groups written so far, the writers that are open, the directories, the
  conversion logs, and the record of the archive members that were opened for reading.
  \<open>disk_quota\<close> is the number of row groups the disk still accepts (\<open>None\<close>: no limit); a
  write beyond it is the I/O failure of the writer.
\<close>

type_synonym path = "string list"

record member =
  filename :: string
  file_size :: nat
  content :: "(string \<times> string list) list"

record parquet_file =
  file_schema :: arrow_schema
  row_groups :: "dataframe list"

datatype log_entry =
    LogStreaming string nat nat           \<comment> \<open>table, size, chunk size\<close>
  | LogInMemory string nat nat nat        \<comment> \<open>table, size, rows, columns\<close>
  | LogError string error                 \<comment> \<open>archive name, error\<close>

record world =
  archives :: "path \<rightharpoonup> member list"
  schema_files :: "string \<times> string \<Rightarrow> schema_file"
  parquet_files :: "path \<rightharpoonup> parquet_file"
  open_writers :: "path set"
  directories :: "path set"
  logs :: "path \<rightharpoonup> log_entry list"
  archive_reads :: "(path \<times> string) list"
  disk_quota :: "nat option"

definition BLD :: path where
  "BLD = [''bld'']"

definition parent :: "path \<Rightarrow> path" where
  "parent p = butlast p"

text \<open>\<open>Path.mkdir(parents=True, exist_ok=True)\<close>.\<close>

definition mkdir_parents :: "path \<Rightarrow> world \<Rightarrow> world" where
  "mkdir_parents p w =
     w\<lparr> directories := directories w \<union> set (map (\<lambda>k. take k p) [1..<Suc (length p)]) \<rparr>"

definition log_write :: "path \<Rightarrow> log_entry \<Rightarrow> world \<Rightarrow> world" where
  "log_write log_path entry w =
     w\<lparr> logs := (logs w)(log_path \<mapsto> (case logs w log_path of None \<Rightarrow> [] | Some es \<Rightarrow> es) @ [entry]) \<rparr>"

text \<open>\<open>open(log_path, "a")\<close> creates the file when it is missing.\<close>

definition log_open_append :: "path \<Rightarrow> world \<Rightarrow> world" where
  "log_open_append log_path w =
     w\<lparr> logs := (logs w)(log_path \<mapsto> (case logs w log_path of None \<Rightarrow> [] | Some es \<Rightarrow> es)) \<rparr>"

section \<open>Columnar writer: \<open>pq.ParquetWriter\<close>\<close>

record parquet_writer =
  writer_path :: path
  writer_schema :: arrow_schema

text \<open>Opening a writer creates the file, empty, with the schema it is given.\<close>

definition ParquetWriter :: "path \<Rightarrow> arrow_schema \<Rightarrow> world \<Rightarrow> parquet_writer \<times> world" where
  "ParquetWriter p sch w =
     (\<lparr> writer_path = p, writer_schema = sch \<rparr>,
      w\<lparr> parquet_files := (parquet_files w)(p \<mapsto> \<lparr> file_schema = sch, row_groups = [] \<rparr>),
         open_writers := insert p (open_writers w) \<rparr>)"

text \<open>
  \<open>write_table\<close> compares the schema of the table with the schema the writer was opened
  with and raises a ValueError when they differ; otherwise the table is appended to the
  file as a row group.
\<close>

definition write_table :: "parquet_writer \<Rightarrow> table \<Rightarrow> world \<Rightarrow> error + world" where
  "write_table wr t w =
     (if table_schema t \<noteq> writer_schema wr then Inl SchemaMismatch
      else if disk_quota w = Some 0 then Inl WriteError
      else Inr (w\<lparr> parquet_files :=
                      (parquet_files w)(writer_path wr \<mapsto>
                         \<lparr> file_schema = writer_schema wr,
                           row_groups =
                             (case parquet_files w (writer_path wr) of
                                None \<Rightarrow> [] | Some f \<Rightarrow> row_groups f) @ [table_data t] \<rparr>),
                    disk_quota := map_option (\<lambda>q. q - 1) (disk_quota w) \<rparr>))"

definition writer_close :: "parquet_writer \<Rightarrow> world \<Rightarrow> world" where
  "writer_close wr w = w\<lparr> open_writers := open_writers w - {writer_path wr} \<rparr>"

section \<open>Reading the text stream: \<open>pd.read_csv\<close>\<close>

text \<open>
  The text of a member is kept tokenised: the header names, each with the values of its
  column, top to bottom. Without a chunk size \<open>read_csv\<close> returns one frame. With a chunk
  size it returns a reader that yields the rows in blocks of that many rows; a member
  without data rows yields one empty block. A chunk size below 1 is refused.
\<close>

definition read_csv :: "(string \<times> string list) list \<Rightarrow> dataframe" where
  "read_csv tsv = map (\<lambda>(n, xs). (n, ObjectCol (map Str xs))) tsv"

definition nrows :: "(string \<times> string list) list \<Rightarrow> nat" where
  "nrows tsv = (case tsv of [] \<Rightarrow> 0 | (n, xs) # _ \<Rightarrow> length xs)"

definition rows_slice :: "nat \<Rightarrow> nat \<Rightarrow> (string \<times> string list) list \<Rightarrow> (string \<times> string list) list" where
  "rows_slice start count tsv = map (\<lambda>(n, xs). (n, take count (drop start xs))) tsv"

definition read_csv_chunked ::
  "(string \<times> string list) list \<Rightarrow> nat \<Rightarrow> error + (error + dataframe) list" where
  "read_csv_chunked tsv chunksize =
     (if chunksize < 1 then Inl ChunksizeError
      else if nrows tsv = 0 then Inr [Inr (read_csv tsv)]
      else Inr (map (\<lambda>k. Inr (read_csv (rows_slice (k * chunksize) chunksize tsv)))
                  [0..<(nrows tsv + chunksize - 1) div chunksize]))"

section \<open>Streaming conversion: \<open>_write_parquet_streaming\<close>\<close>

text \<open>Lines 164 to 169: what is done to a chunk before it is handed to the writer.\<close>

definition chunk_to_table ::
  "pandas \<Rightarrow> string list option \<Rightarrow> string list option \<Rightarrow> dataframe \<Rightarrow> error + table" where
  "chunk_to_table L date_columns integer_columns chunk =
     (case apply_column_limit chunk of
        Inl e \<Rightarrow> Inl e
      | Inr chunk1 \<Rightarrow>
          from_pandas
            (parse_integer_columns L
               (parse_date_columns L (strip_outer_quotes chunk1) date_columns)
               integer_columns))"

text \<open>
  The body of the \<open>try\<close>: the loop over the reader. An item \<open>Inl e\<close> of the reader is the
  reader raising \<open>e\<close> at that point. The result carries the writer as the loop leaves it,
  for the \<open>finally\<close> block.
\<close>

fun write_chunks ::
  "pandas \<Rightarrow> path \<Rightarrow> string list option \<Rightarrow> string list option \<Rightarrow>
   (error + dataframe) list \<Rightarrow> parquet_writer option \<Rightarrow> world \<Rightarrow>
   (error + unit) \<times> parquet_writer option \<times> world" where
  "write_chunks L parquet_path dc ic [] writer w = (Inr (), writer, w)"
| "write_chunks L parquet_path dc ic (Inl e # reader) writer w = (Inl e, writer, w)"
| "write_chunks L parquet_path dc ic (Inr chunk # reader) writer w =
     (case chunk_to_table L dc ic chunk of
        Inl e \<Rightarrow> (Inl e, writer, w)
      | Inr t \<Rightarrow>
          (let (writer1, w1) =
                 (case writer of
                    None \<Rightarrow> ParquetWriter parquet_path (table_schema t)
                              (mkdir_parents (parent parquet_path) w)
                  | Some wr \<Rightarrow> (wr, w))
           in case write_table writer1 t w1 of
                Inl e \<Rightarrow> (Inl e, Some writer1, w1)
              | Inr w2 \<Rightarrow> write_chunks L parquet_path dc ic reader (Some writer1) w2))"

text \<open>The \<open>try\<close> with its \<open>finally\<close>: the writer, when there is one, is closed.\<close>

definition write_reader ::
  "pandas \<Rightarrow> path \<Rightarrow> string list option \<Rightarrow> string list option \<Rightarrow>
   (error + dataframe) list \<Rightarrow> world \<Rightarrow> (error + unit) \<times> world" where
  "write_reader L parquet_path dc ic reader w =
     (let (r, writer, w1) = write_chunks L parquet_path dc ic reader None w
      in (r, case writer of None \<Rightarrow> w1 | Some wr \<Rightarrow> writer_close wr w1))"

definition write_parquet_streaming ::
  "pandas \<Rightarrow> (string \<times> string list) list \<Rightarrow> path \<Rightarrow> nat \<Rightarrow>
   string list option \<Rightarrow> string list option \<Rightarrow> world \<Rightarrow> (error + unit) \<times> world" where
  "write_parquet_streaming L tsv_stream parquet_path chunksize dc ic w =
     (case read_csv_chunked tsv_stream chunksize of
        Inl e \<Rightarrow> (Inl e, w)
      | Inr reader \<Rightarrow> write_reader L parquet_path dc ic reader w)"

section \<open>Parsers for the worked examples\<close>

text \<open>
  The examples below need the parsers at a few concrete texts. \<open>example_date\<close> reads a
  ten-character value of four, two and two decimal digits separated by hyphens that names
  a day of the calendar; \<open>example_number\<close> reads a plain decimal literal: an optional minus
  sign, digits, and an optional fraction. The examples use no other text.
\<close>

fun digits_val :: "nat \<Rightarrow> string \<Rightarrow> nat option" where
  "digits_val acc [] = Some acc"
| "digits_val acc (c # cs) =
     (let n = (of_char c :: nat)
      in if 48 \<le> n \<and> n \<le> 57 then digits_val (10 * acc + (n - 48)) cs else None)"

definition days_in_month :: "nat \<Rightarrow> nat \<Rightarrow> nat" where
  "days_in_month y m =
     (if m = 2 then (if y mod 4 = 0 \<and> (y mod 100 \<noteq> 0 \<or> y mod 400 = 0) then 29 else 28)
      else if m \<in> {4, 6, 9, 11} then 30 else 31)"

definition example_date :: "string \<Rightarrow> date option" where
  "example_date s =
     (if length s = 10 \<and> s ! 4 = CHR ''-'' \<and> s ! 7 = CHR ''-'' then
        (case (digits_val 0 (take 4 s), digits_val 0 (take 2 (drop 5 s)), digits_val 0 (drop 8 s)) of
           (Some y, Some m, Some d) \<Rightarrow>
             if 1 \<le> m \<and> m \<le> 12 \<and> 1 \<le> d \<and> d \<le> days_in_month y m
             then Some (Date y m d) else None
         | _ \<Rightarrow> None)
      else None)"

definition example_number :: "string \<Rightarrow> rat option" where
  "example_number s =
     (let neg = (s \<noteq> [] \<and> hd s = CHR ''-'');
          body = (if neg then tl s else s);
          ip = takeWhile (\<lambda>c. c \<noteq> CHR ''.'') body;
          fp = drop 1 (dropWhile (\<lambda>c. c \<noteq> CHR ''.'') body)
      in if ip = [] then None
         else (case (digits_val 0 ip, digits_val 0 fp) of
                 (Some a, Some b) \<Rightarrow>
                   Some ((if neg then - 1 else 1) * (of_nat a + of_nat b / 10 ^ length fp))
               | _ \<Rightarrow> None))"

definition example_pandas :: pandas where
  "example_pandas = \<lparr> to_datetime = example_date, to_numeric = example_number \<rparr>"

section \<open>Size classifier\<close>

text \<open>Line 194: \<open>use_streaming = member.file_size >= SIZE_THRESHOLD_BYTES\<close>.\<close>

definition use_streaming :: "nat \<Rightarrow> bool" where
  "use_streaming sz = (SIZE_THRESHOLD_BYTES \<le> sz)"



section \<open>Buffered conversion: \<open>DataFrame.to_parquet\<close>\<close>

text \<open>
  The frame is written as one table through a writer of its own. When the write fails the
  library removes the file before it raises.
\<close>

definition to_parquet :: "dataframe \<Rightarrow> path \<Rightarrow> world \<Rightarrow> (error + unit) \<times> world" where
  "to_parquet df p w =
     (case from_pandas df of
        Inl e \<Rightarrow> (Inl e, w)
      | Inr t \<Rightarrow>
          (let (wr, w1) = ParquetWriter p (table_schema t) w
           in case write_table wr t w1 of
                Inl e \<Rightarrow>
                  (Inl e, (writer_close wr w1)\<lparr> parquet_files := (parquet_files w1)(p := None) \<rparr>)
              | Inr w2 \<Rightarrow> (Inr (), writer_close wr w2)))"

section \<open>One member: \<open>_convert_member_to_parquet\<close>\<close>

definition contains :: "string \<Rightarrow> string \<Rightarrow> bool" where
  "contains p s = list_ex (\<lambda>i. take (length p) (drop i s) = p) [0..<Suc (length s)]"

fun col_length :: "column \<Rightarrow> nat" where
  "col_length (ObjectCol xs) = length xs"
| "col_length (Int64Col xs) = length xs"
| "col_length (Float64Col xs) = length xs"

text \<open>\<open>df.shape\<close>: rows and columns.\<close>

definition shape :: "dataframe \<Rightarrow> nat \<times> nat" where
  "shape df = ((case df of [] \<Rightarrow> 0 | (n, c) # _ \<Rightarrow> col_length c), length df)"

definition convert_member_to_parquet ::
  "pandas \<Rightarrow> path \<Rightarrow> member \<Rightarrow> string \<Rightarrow> path \<Rightarrow> path \<Rightarrow> string \<Rightarrow> world \<Rightarrow>
   (error + unit) \<times> world" where
  "convert_member_to_parquet L zip_path m table_name parquet_path log_file dataset w =
     (let (date_columns, integer_columns) = get_column_types (schema_files w (dataset, table_name));
          w0 = w\<lparr> archive_reads := archive_reads w @ [(zip_path, filename m)] \<rparr>
      in if use_streaming (file_size m) then
           (let lower_chunksize =
                  (if contains ''abstract'' table_name then 100000 else DEFAULT_CHUNKSIZE);
                w1 = log_write log_file (LogStreaming table_name (file_size m) lower_chunksize) w0
            in write_parquet_streaming L (content m) parquet_path lower_chunksize
                 date_columns integer_columns w1)
         else
           (case apply_column_limit (read_csv (content m)) of
              Inl e \<Rightarrow> (Inl e, w0)
            | Inr df1 \<Rightarrow>
                (let df = parse_integer_columns L
                            (parse_date_columns L (strip_outer_quotes df1) date_columns)
                            integer_columns
                 in case to_parquet df parquet_path (mkdir_parents (parent parquet_path) w0) of
                      (Inl e, w2) \<Rightarrow> (Inl e, w2)
                    | (Inr u, w2) \<Rightarrow>
                        (Inr (),
                         log_write log_file
                           (LogInMemory table_name (file_size m) (fst (shape df)) (snd (shape df)))
                           w2))))"

section \<open>One archive: \<open>convert_zip\<close>\<close>

definition path_name :: "path \<Rightarrow> string" where
  "path_name p = (if p = [] then [] else last p)"

text \<open>\<open>parquet.exists()\<close>: the output is there when a file is stored under the path.\<close>

definition path_exists :: "path \<Rightarrow> world \<Rightarrow> bool" where
  "path_exists p w = (parquet_files w p \<noteq> None)"

text \<open>The loop over the members; an error leaves it at once.\<close>

fun convert_members ::
  "pandas \<Rightarrow> path \<Rightarrow> member list \<Rightarrow> string \<Rightarrow> path \<Rightarrow> path \<Rightarrow> string \<Rightarrow> world \<Rightarrow>
   (error + unit) \<times> world" where
  "convert_members L zip_path [] table parquet log_file dataset w = (Inr (), w)"
| "convert_members L zip_path (m # ms) table parquet log_file dataset w =
     (case convert_member_to_parquet L zip_path m table parquet log_file dataset w of
        (Inl e, w1) \<Rightarrow> (Inl e, w1)
      | (Inr u, w1) \<Rightarrow> convert_members L zip_path ms table parquet log_file dataset w1)"

definition convert_zip ::
  "pandas \<Rightarrow> path \<Rightarrow> string \<Rightarrow> path \<Rightarrow> string \<Rightarrow> world \<Rightarrow> (error + unit) \<times> world" where
  "convert_zip L zip_path table parquet dataset w =
     (if path_exists parquet w then (Inr (), w)
      else
        (let dataset_converted_dir = BLD @ [''converted'', dataset];
             w1 = mkdir_parents dataset_converted_dir w;
             log_path = dataset_converted_dir @ [''conversion_log.txt''];
             w2 = log_open_append log_path w1;
             (r, w3) =
               (case archives w2 zip_path of
                  None \<Rightarrow> (Inl ArchiveError, w2)
                | Some infolist \<Rightarrow>
                    (let members = filter (\<lambda>m. endswith (filename m) ''.tsv'') infolist
                     in if members = [] then (Inl NoTsvMembers, w2)
                        else convert_members L zip_path members table parquet log_path dataset w2))
         in case r of
              Inl e \<Rightarrow> (Inl e, log_write log_path (LogError (path_name zip_path) e) w3)
            | Inr u \<Rightarrow> (Inr (), w3)))"

section \<open>Worlds and members of the worked examples\<close>

text \<open>
  An empty world, and the target of the examples.
\<close>

definition example_world :: world where
  "example_world =
     \<lparr> archives = Map.empty, schema_files = (\<lambda>_. None), parquet_files = Map.empty,
       open_writers = {}, directories = {}, logs = Map.empty, archive_reads = [],
       disk_quota = None \<rparr>"

definition example_parquet :: path where
  "example_parquet = [''bld'', ''converted'', ''granted'', ''g_patent_20251209.parquet'']"

text \<open>
  A member of 251500512 bytes: a header, 500000 rows whose declared INTEGER column \<open>n\<close>
  holds \<open>1\<close>, and a last row where it holds \<open>2.5\<close>; the second column is a text of 500
  characters in every row. In \<open>integer_world\<close> the schema artifact declares \<open>n\<close> as INTEGER.
\<close>

definition wide_text :: string where
  "wide_text = replicate 500 (CHR ''x'')"

definition mixed_rows :: "(string \<times> string list) list" where
  "mixed_rows =
     [(''n'', replicate DEFAULT_CHUNKSIZE ''1'' @ [''2.5'']),
      (''text'', replicate DEFAULT_CHUNKSIZE wide_text @ [wide_text])]"

definition large_member :: member where
  "large_member = \<lparr> filename = ''g_claims.tsv'', file_size = 251500512, content = mixed_rows \<rparr>"

definition integer_world :: world where
  "integer_world = example_world\<lparr> schema_files := (\<lambda>_. Some [(''n'', ''INTEGER'')]) \<rparr>"

definition example_zip :: path where
  "example_zip = [''bld'', ''raw'', ''granted'', ''g_claims.tsv.zip'']"

definition example_log :: path where
  "example_log = [''bld'', ''converted'', ''granted'', ''conversion_log.txt'']"

text \<open>
  The scenario of one small member \<open>g_patent.tsv\<close> with a declared DATE column, and a
  world where the target exists already and the archive holds no \<open>.tsv\<close> member.
\<close>

definition patent_zip :: path where
  "patent_zip = [''bld'', ''raw'', ''granted'', ''g_patent.tsv.zip'']"

definition patent_member :: member where
  "patent_member =
     \<lparr> filename = ''g_patent.tsv'', file_size = 70,
       content = [(''id'', [''1'', ''2'', ''3'']),
                  (''type'', [''utility'', ''design'', ''plant'']),
                  (''date_issued'', [''2020-01-05'', ''01/05/2020'', ''''])] \<rparr>"

definition patent_world :: world where
  "patent_world =
     example_world
       \<lparr> archives := [patent_zip \<mapsto> [patent_member]],
         schema_files := (\<lambda>_. Some [(''date_issued'', ''DATE'')]) \<rparr>"

definition converted_world :: world where
  "converted_world =
     example_world
       \<lparr> archives :=
           [patent_zip \<mapsto> [\<lparr> filename = ''README.txt'', file_size = 12, content = [] \<rparr>]],
         parquet_files :=
           [example_parquet \<mapsto> \<lparr> file_schema = [(''id'', ArrowString)],
                                  row_groups = [[(''id'', ObjectCol [Str ''1''])]] \<rparr>] \<rparr>"

section \<open>Well-formed columns\<close>

text \<open>
  An \<open>object\<close> column is uniform when it holds strings only or no string at all. The
  columns of a freshly read frame are uniform, and the normalizer and the coercer keep
  them so; Arrow infers a type for every uniform column.
\<close>

fun uniform :: "column \<Rightarrow> bool" where
  "uniform (ObjectCol xs) = (list_all is_str xs \<or> list_all (\<lambda>v. \<not> is_str v) xs)"
| "uniform c = True"

section \<open>Properties of the row normalizer\<close>

lemma py_slice_inner:
  "2 \<le> length x \<Longrightarrow> py_slice 1 (- 1) x = butlast (tl x)"
proof -
  assume len: "2 \<le> length x"
  then have stop: "py_index (length x) (- 1) = length x - 1"
    unfolding py_index_def by auto
  from len have start: "py_index (length x) 1 = 1"
    unfolding py_index_def by auto
  have "py_slice 1 (- 1) x = take (length x - 1 - 1) (drop 1 x)"
    unfolding py_slice_def Let_def stop start ..
  also have "\<dots> = butlast (tl x)"
    by (simp add: butlast_conv_take drop_Suc)
  finally show ?thesis .
qed

lemma startswith_dquote: "startswith x [dquote] \<longleftrightarrow> (x \<noteq> [] \<and> hd x = dquote)"
  by (cases x) (auto simp: startswith_def)

lemma endswith_dquote: "endswith x [dquote] \<longleftrightarrow> (x \<noteq> [] \<and> last x = dquote)"
proof (cases x rule: rev_cases)
  case Nil
  then show ?thesis by (simp add: endswith_def)
next
  case (snoc ys y)
  then show ?thesis by (auto simp: endswith_def)
qed

text \<open>
  What the normalizer does on every string: a value that starts and ends with a double
  quote loses its first and its last character (for a value of length at least 2 these are
  one leading and one trailing quote), every other value is returned as it is.
\<close>

lemma strip_cell_wrapped:
  "2 \<le> length x \<Longrightarrow> hd x = dquote \<Longrightarrow> last x = dquote \<Longrightarrow>
   strip_cell (Str x) = Str (butlast (tl x))"
  by (cases x) (auto simp: startswith_dquote endswith_dquote py_slice_inner)

lemma strip_cell_unwrapped:
  "\<not> (x \<noteq> [] \<and> hd x = dquote \<and> last x = dquote) \<Longrightarrow> strip_cell (Str x) = Str x"
  by (auto simp: startswith_dquote endswith_dquote)

text \<open>
  C4. The claim asks that a value be stripped only when its length is at least 2 and that
  the one-character value \<open>"\<close> stay unchanged. The source tests \<open>startswith\<close> and \<open>endswith\<close>
  only; on the single quote both hold, and the slice \<open>x[1:-1]\<close> is the empty string.
\<close>

theorem strip_single_quote_emptied:
  "strip_cell (Str [dquote]) = Str []
   \<and> strip_outer_quotes [(''c'', ObjectCol [Str [dquote]])] = [(''c'', ObjectCol [Str []])]"
  by (simp add: strip_outer_quotes_def startswith_def endswith_def py_slice_def py_index_def)

section \<open>Properties of the size classifier\<close>


section \<open>Properties of the type coercer\<close>

lemma columns_set_column [simp]: "columns (set_column a v df) = columns df"
  by (induction df) (auto simp: columns_def set_column_def)

lemma map_of_set_column:
  "map_of (set_column a v df) c = (if a = c then map_option (\<lambda>_. v) (map_of df c) else map_of df c)"
  by (induction df) (auto simp: set_column_def)

lemma map_of_None_columns: "map_of df a = None \<longleftrightarrow> a \<notin> set (columns df)"
  by (simp add: map_of_eq_None_iff columns_def)

lemma np_round_of_int [simp]: "np_round (of_int k) = k"
  by (simp add: np_round_def)

lemma is_whole_of_int [simp]: "is_whole (of_int k)"
  by (simp add: is_whole_def)

lemma np_round_round:
  "np_round v = round v \<or> (\<bar>v - of_int (np_round v)\<bar> = 1/2 \<and> \<bar>v - of_int (round v)\<bar> = 1/2)"
proof -
  define f where "f = \<lfloor>v\<rfloor>"
  define d where "d = v - of_int f"
  have d0: "0 \<le> d" and d1: "d < 1" unfolding d_def f_def by linarith+
  have v: "v = of_int f + d" by (simp add: d_def)
  have np: "np_round v = (if d < 1/2 then f else if 1/2 < d then f + 1 else if even f then f else f + 1)"
    unfolding np_round_def Let_def d_def f_def by (rule refl)
  consider "d < 1/2" | "1/2 < d" | "d = 1/2" by linarith
  then show ?thesis
  proof cases
    case 1
    have "round v = f" unfolding round_def v using 1 d0 by (intro floor_unique) auto
    moreover have "np_round v = f" using 1 by (simp add: np)
    ultimately show ?thesis by simp
  next
    case 2
    have "round v = f + 1" unfolding round_def v using 2 d1 by (intro floor_unique) auto
    moreover have "np_round v = f + 1" using 2 by (simp add: np)
    ultimately show ?thesis by simp
  next
    case 3
    have r: "round v = f + 1" unfolding round_def v using 3 by (intro floor_unique) auto
    have n: "np_round v = f \<or> np_round v = f + 1" using 3 by (simp add: np)
    have "v - of_int (round v) = d - 1" unfolding r d_def by simp
    then have "\<bar>v - of_int (round v)\<bar> = 1/2" using 3 by simp
    moreover have "v - of_int (np_round v) = d \<or> v - of_int (np_round v) = d - 1"
      using n unfolding d_def by auto
    then have "\<bar>v - of_int (np_round v)\<bar> = 1/2" using 3 by auto
    ultimately show ?thesis by simp
  qed
qed

lemma is_whole_round: "is_whole v \<longleftrightarrow> \<bar>v - of_int (round v)\<bar> < 1 / 10 ^ 10"
  using np_round_round[of v] unfolding is_whole_def by auto

lemma is_whole_np_round: "is_whole v \<Longrightarrow> np_round v = round v"
  using np_round_round[of v] unfolding is_whole_def by auto


lemma columns_parse_date_step [simp]: "columns (parse_date_step L a df) = columns df"
  by (simp add: parse_date_step_def split: option.splits)

lemma map_of_parse_date_step:
  "map_of (parse_date_step L a df) c =
     (if a = c then map_option (date_col L) (map_of df c) else map_of df c)"
  by (auto simp: parse_date_step_def map_of_set_column split: option.splits)

lemma to_date_cell_idem: "to_date_cell L (to_date_cell L x) = to_date_cell L x"
  by (cases x) (auto split: option.splits)

lemma date_col_idem: "date_col L (date_col L c) = date_col L c"
  by (cases c) (auto simp: to_date_cell_idem)

lemma columns_fold_date [simp]: "columns (fold (parse_date_step L) cols df) = columns df"
  by (induction cols arbitrary: df) auto

lemma map_of_fold_date:
  "map_of (fold (parse_date_step L) cols df) c =
     (if c \<in> set cols then map_option (date_col L) (map_of df c) else map_of df c)"
  by (induction cols arbitrary: df)
     (auto simp: map_of_parse_date_step option.map_comp comp_def date_col_idem)

lemma parse_date_step_absent:
  "a \<notin> set (columns df) \<Longrightarrow> parse_date_step L a df = df"
  by (simp add: parse_date_step_def map_of_None_columns[symmetric])

lemma columns_parse_integer_step [simp]: "columns (parse_integer_step L a df) = columns df"
  by (simp add: parse_integer_step_def split: option.splits)

lemma map_of_parse_integer_step:
  "map_of (parse_integer_step L a df) c =
     (if a = c then map_option (integer_col L) (map_of df c) else map_of df c)"
  by (auto simp: parse_integer_step_def map_of_set_column split: option.splits)

lemma parse_integer_step_absent:
  "a \<notin> set (columns df) \<Longrightarrow> parse_integer_step L a df = df"
  by (simp add: parse_integer_step_def map_of_None_columns[symmetric])

lemma non_null_map_of_int: "non_null (map (map_option f) ys) = map f (non_null ys)"
  by (induction ys) (auto simp: non_null_def)

lemma non_null_Nil_all_None: "non_null ys = [] \<Longrightarrow> map (\<lambda>_. None) ys = ys"
  by (induction ys) (auto simp: non_null_def split: if_splits)

lemma map_round_of_int: "map (map_option np_round) (map (map_option of_int) ys) = ys"
  by (induction ys) (auto simp: option.map_comp comp_def option.map_ident)

lemma integer_col_Int64: "integer_col L (Int64Col ys) = Int64Col ys"
proof (cases "non_null ys = []")
  case True
  then show ?thesis
    by (simp add: integer_col_def Let_def non_null_map_of_int non_null_Nil_all_None comp_def)
next
  case False
  have "list_all is_whole (map rat_of_int (non_null ys))"
    by (simp add: list_all_iff)
  with False show ?thesis
    by (simp add: integer_col_def Let_def non_null_map_of_int map_round_of_int
        del: map_map)
qed

lemma integer_col_cases:
  "(\<exists>ys. integer_col L c = Int64Col ys) \<or>
   (integer_col L c = Float64Col (numeric_series_of L c) \<and> non_null (numeric_series_of L c) \<noteq> []
    \<and> \<not> list_all is_whole (non_null (numeric_series_of L c)))"
  by (auto simp: integer_col_def Let_def)

lemma integer_col_idem: "integer_col L (integer_col L c) = integer_col L c"
  using integer_col_cases[of L c]
proof (elim disjE exE conjE)
  fix ys assume "integer_col L c = Int64Col ys"
  then show ?thesis by (simp add: integer_col_Int64)
next
  assume a: "integer_col L c = Float64Col (numeric_series_of L c)"
    "non_null (numeric_series_of L c) \<noteq> []"
    "\<not> list_all is_whole (non_null (numeric_series_of L c))"
  show ?thesis unfolding a(1) using a(2,3) by (simp add: integer_col_def Let_def)
qed

lemma columns_fold_integer [simp]: "columns (fold (parse_integer_step L) cols df) = columns df"
  by (induction cols arbitrary: df) auto

lemma map_of_fold_integer:
  "map_of (fold (parse_integer_step L) cols df) c =
     (if c \<in> set cols then map_option (integer_col L) (map_of df c) else map_of df c)"
  by (induction cols arbitrary: df)
     (auto simp: map_of_parse_integer_step option.map_comp comp_def integer_col_idem)

lemma fold_absent_date:
  "a \<notin> set (columns df) \<Longrightarrow>
   fold (parse_date_step L) (xs @ a # ys) df = fold (parse_date_step L) (xs @ ys) df"
  by (simp add: parse_date_step_absent)

lemma fold_absent_integer:
  "a \<notin> set (columns df) \<Longrightarrow>
   fold (parse_integer_step L) (xs @ a # ys) df = fold (parse_integer_step L) (xs @ ys) df"
  by (simp add: parse_integer_step_absent)

lemma non_null_Nil_iff: "non_null vs = [] \<longleftrightarrow> (\<forall>v\<in>set vs. v = None)"
  by (auto simp: non_null_def filter_empty_conv)

lemma set_non_null: "set (non_null vs) = {v. Some v \<in> set vs}"
  by (force simp: non_null_def image_iff)

lemma map_np_round_whole:
  "\<forall>v. Some v \<in> set vs \<longrightarrow> is_whole v \<Longrightarrow>
   map (map_option np_round) vs = map (map_option round) vs"
  by (induction vs) (auto simp: is_whole_np_round map_option_case split: option.splits)

lemma integer_col_strings:
  "integer_col L (ObjectCol (map Str xs)) =
     (if \<forall>v. Some v \<in> set (map (to_numeric L) xs) \<longrightarrow> \<bar>v - of_int (round v)\<bar> < 1 / 10 ^ 10
      then Int64Col (map (map_option round) (map (to_numeric L) xs))
      else Float64Col (map (to_numeric L) xs))"
proof -
  define vs where "vs = map (to_numeric L) xs"
  have ns: "numeric_series_of L (ObjectCol (map Str xs)) = vs"
    by (simp add: vs_def comp_def)
  have whole: "list_all is_whole (non_null vs) \<longleftrightarrow>
      (\<forall>v. Some v \<in> set vs \<longrightarrow> \<bar>v - of_int (round v)\<bar> < 1 / 10 ^ 10)"
    by (simp add: list_all_iff set_non_null is_whole_round)
  have code: "integer_col L (ObjectCol (map Str xs)) =
      (if non_null vs \<noteq> [] then
         if list_all is_whole (non_null vs) then Int64Col (map (map_option np_round) vs)
         else Float64Col vs
       else Int64Col (map (\<lambda>_. None) vs))"
    unfolding integer_col_def Let_def ns by (rule refl)
  show ?thesis
  proof (cases "list_all is_whole (non_null vs)")
    case True
    then have rnd: "map (map_option np_round) vs = map (map_option round) vs"
      by (intro map_np_round_whole) (simp add: list_all_iff set_non_null)
    have "non_null vs = [] \<Longrightarrow> map (\<lambda>_. None) vs = map (map_option round) vs"
      by (auto simp: non_null_Nil_iff)
    then have "integer_col L (ObjectCol (map Str xs)) = Int64Col (map (map_option round) vs)"
      unfolding code using True rnd by (cases "non_null vs = []") simp_all
    moreover have "\<forall>v. Some v \<in> set vs \<longrightarrow> \<bar>v - of_int (round v)\<bar> < 1 / 10 ^ 10"
      using True whole by blast
    ultimately show ?thesis unfolding vs_def by (simp only: if_P if_True)
  next
    case False
    then have "non_null vs \<noteq> []" by auto
    with False have "integer_col L (ObjectCol (map Str xs)) = Float64Col vs"
      unfolding code by simp
    moreover have "\<not> (\<forall>v. Some v \<in> set vs \<longrightarrow> \<bar>v - of_int (round v)\<bar> < 1 / 10 ^ 10)"
      using False whole by blast
    ultimately show ?thesis unfolding vs_def by (simp only: if_not_P if_False)
  qed
qed



lemma apply_column_limit_id [simp]: "apply_column_limit df = Inr df"
  by (simp add: apply_column_limit_def apply_column_limit_to_def N_COLUMNS_def)

lemma not_str_cases: "\<not> is_str v \<Longrightarrow> v \<noteq> NaT \<Longrightarrow> is_date v"
  by (cases v) auto

lemma uniform_arrow_type: "uniform c \<Longrightarrow> \<exists>t. arrow_type_of c = Inr t"
proof (cases c)
  case (ObjectCol xs)
  assume u: "uniform c"
  define vs where "vs = filter (\<lambda>v. v \<noteq> NaT) xs"
  have "list_all is_str vs \<or> list_all is_date vs"
    using u unfolding ObjectCol vs_def by (auto simp: list_all_iff not_str_cases)
  then show ?thesis unfolding ObjectCol by (auto simp: Let_def vs_def[symmetric])
qed simp_all

lemma uniform_schema_of:
  "\<forall>c\<in>snd ` set df. uniform c \<Longrightarrow> \<exists>sch. schema_of df = Inr sch"
proof (induction df)
  case Nil
  then show ?case by simp
next
  case (Cons p df)
  obtain n c where p: "p = (n, c)" by (cases p)
  from Cons.prems have "uniform c" by (simp add: p)
  then obtain t where t: "arrow_type_of c = Inr t" using uniform_arrow_type by blast
  from Cons obtain sch where "schema_of df = Inr sch" by auto
  with t show ?case by (simp add: p)
qed

lemma uniform_strip_col: "uniform c \<Longrightarrow> uniform (strip_col c)"
proof (cases c)
  case (ObjectCol xs)
  have s: "is_str (strip_cell v) = is_str v" for v by (cases v) auto
  assume "uniform c"
  then show ?thesis unfolding ObjectCol by (auto simp: list_all_iff s)
qed simp_all

lemma uniform_date_col: "uniform (date_col L c)"
proof -
  have s: "\<not> is_str (to_date_cell L v)" for v by (cases v) (auto split: option.splits)
  show ?thesis by (cases c) (auto simp: list_all_iff s)
qed

lemma uniform_integer_col: "uniform (integer_col L c)"
  by (simp add: integer_col_def Let_def)

lemma uniform_set_column:
  "\<forall>c\<in>snd ` set df. uniform c \<Longrightarrow> uniform v \<Longrightarrow> \<forall>c\<in>snd ` set (set_column a v df). uniform c"
  by (induction df) (auto simp: set_column_def)

lemma uniform_strip_outer_quotes:
  "\<forall>c\<in>snd ` set df. uniform c \<Longrightarrow> \<forall>c\<in>snd ` set (strip_outer_quotes df). uniform c"
  by (induction df) (auto simp: strip_outer_quotes_def uniform_strip_col)

lemma uniform_parse_date_columns:
  "\<forall>c\<in>snd ` set df. uniform c \<Longrightarrow> \<forall>c\<in>snd ` set (parse_date_columns L df dc). uniform c"
proof (cases dc)
  case None
  then show "\<forall>c\<in>snd ` set df. uniform c \<Longrightarrow> ?thesis" by (simp add: parse_date_columns_def)
next
  case (Some cols)
  have "\<forall>c\<in>snd ` set df. uniform c \<Longrightarrow> \<forall>c\<in>snd ` set (fold (parse_date_step L) cols df). uniform c"
  proof (induction cols arbitrary: df)
    case Nil
    then show ?case by simp
  next
    case (Cons a cols)
    have "\<forall>c\<in>snd ` set (parse_date_step L a df). uniform c"
      using Cons.prems uniform_set_column[OF Cons.prems uniform_date_col]
      by (auto simp: parse_date_step_def split: option.splits)
    then show ?case using Cons.IH by simp
  qed
  then show "\<forall>c\<in>snd ` set df. uniform c \<Longrightarrow> ?thesis" by (simp add: parse_date_columns_def Some)
qed

lemma uniform_parse_integer_columns:
  "\<forall>c\<in>snd ` set df. uniform c \<Longrightarrow> \<forall>c\<in>snd ` set (parse_integer_columns L df ic). uniform c"
proof (cases ic)
  case None
  then show "\<forall>c\<in>snd ` set df. uniform c \<Longrightarrow> ?thesis" by (simp add: parse_integer_columns_def)
next
  case (Some cols)
  have "\<forall>c\<in>snd ` set df. uniform c \<Longrightarrow> \<forall>c\<in>snd ` set (fold (parse_integer_step L) cols df). uniform c"
  proof (induction cols arbitrary: df)
    case Nil
    then show ?case by simp
  next
    case (Cons a cols)
    have "\<forall>c\<in>snd ` set (parse_integer_step L a df). uniform c"
      using Cons.prems uniform_set_column[OF Cons.prems uniform_integer_col]
      by (auto simp: parse_integer_step_def split: option.splits)
    then show ?case using Cons.IH by simp
  qed
  then show "\<forall>c\<in>snd ` set df. uniform c \<Longrightarrow> ?thesis" by (simp add: parse_integer_columns_def Some)
qed

lemma uniform_read_csv: "\<forall>c\<in>snd ` set (read_csv tsv). uniform c"
  by (auto simp: read_csv_def list_all_iff)

lemma chunk_to_table_total:
  "\<exists>t. chunk_to_table L dc ic (read_csv tsv) = Inr t"
proof -
  let ?df = "parse_integer_columns L (parse_date_columns L (strip_outer_quotes (read_csv tsv)) dc) ic"
  have "\<forall>c\<in>snd ` set ?df. uniform c"
    by (intro uniform_parse_integer_columns uniform_parse_date_columns
        uniform_strip_outer_quotes uniform_read_csv)
  then obtain sch where "schema_of ?df = Inr sch" using uniform_schema_of by blast
  then show ?thesis by (simp add: chunk_to_table_def from_pandas_def)
qed



text \<open>
  C10. A declared DATE or INTEGER name \<open>a\<close> that is not a column of the chunk changes
  nothing: the coercer returns what it returns without that name, and it has no error
  result. A column whose name is not declared is returned as it was, and the names and
  order of the columns are kept.
\<close>

theorem absent_declared_column_ignored:
  "(a \<notin> set (columns df) \<longrightarrow>
      parse_date_columns L df (Some (xs @ a # ys)) = parse_date_columns L df (Some (xs @ ys))
    \<and> parse_integer_columns L df (Some (xs @ a # ys)) = parse_integer_columns L df (Some (xs @ ys)))
   \<and> (n \<notin> set cols \<longrightarrow>
      map_of (parse_date_columns L df (Some cols)) n = map_of df n
    \<and> map_of (parse_integer_columns L df (Some cols)) n = map_of df n)
   \<and> columns (parse_date_columns L df (Some cols)) = columns df
   \<and> columns (parse_integer_columns L df (Some cols)) = columns df"
  by (simp add: parse_date_columns_def parse_integer_columns_def parse_date_step_absent
      parse_integer_step_absent map_of_fold_date map_of_fold_integer)

theorem absent_declared_column_ignored_witness:
  "parse_date_columns example_pandas [(''id'', ObjectCol [Str ''7''])] (Some [''date_issued'']) =
     [(''id'', ObjectCol [Str ''7''])]
   \<and> parse_integer_columns example_pandas [(''id'', ObjectCol [Str ''7''])] (Some [''year'']) =
     [(''id'', ObjectCol [Str ''7''])]
   \<and> map_of (parse_integer_columns example_pandas
               [(''id'', ObjectCol [Str ''7'']), (''year'', ObjectCol [Str ''1999''])]
               (Some [''year''])) ''id'' = Some (ObjectCol [Str ''7''])"
proof -
  have a: "''date_issued'' \<notin> set (columns [(''id'', ObjectCol [Str ''7''])])"
    and b: "''year'' \<notin> set (columns [(''id'', ObjectCol [Str ''7''])])"
    and c: "''id'' \<notin> set [''year'']"
    by (simp_all add: columns_def)
  have e: "parse_date_columns example_pandas [(''id'', ObjectCol [Str ''7''])] (Some []) =
      [(''id'', ObjectCol [Str ''7''])]"
    "parse_integer_columns example_pandas [(''id'', ObjectCol [Str ''7''])] (Some []) =
      [(''id'', ObjectCol [Str ''7''])]"
    by (simp_all add: parse_date_columns_def parse_integer_columns_def)
  show ?thesis
    using absent_declared_column_ignored
        [of "''date_issued''" "[(''id'', ObjectCol [Str ''7''])]" example_pandas "[]" "[]"]
      absent_declared_column_ignored
        [of "''year''" "[(''id'', ObjectCol [Str ''7''])]" example_pandas "[]" "[]"]
      absent_declared_column_ignored
        [of _ "[(''id'', ObjectCol [Str ''7'']), (''year'', ObjectCol [Str ''1999''])]"
            example_pandas _ _ "''id''" "[''year'']"]
      a b c
    by (simp add: e)
qed

section \<open>Properties of the columnar writer\<close>

lemma open_writers_mkdir [simp]: "open_writers (mkdir_parents d w) = open_writers w"
  by (simp add: mkdir_parents_def)

lemma parquet_files_mkdir [simp]: "parquet_files (mkdir_parents d w) = parquet_files w"
  by (simp add: mkdir_parents_def)

lemma disk_quota_mkdir [simp]: "disk_quota (mkdir_parents d w) = disk_quota w"
  by (simp add: mkdir_parents_def)

lemma write_table_Inr:
  "write_table wr t w = Inr w2 \<Longrightarrow>
     table_schema t = writer_schema wr
   \<and> open_writers w2 = open_writers w
   \<and> parquet_files w2 = (parquet_files w)(writer_path wr \<mapsto>
        \<lparr> file_schema = writer_schema wr,
          row_groups = (case parquet_files w (writer_path wr) of
                          None \<Rightarrow> [] | Some f \<Rightarrow> row_groups f) @ [table_data t] \<rparr>)"
  by (auto simp: write_table_def split: if_splits)

lemma ParquetWriter_eq:
  "ParquetWriter p sch w = (wr, w1) \<Longrightarrow>
     writer_path wr = p \<and> writer_schema wr = sch
   \<and> open_writers w1 = insert p (open_writers w)
   \<and> parquet_files w1 = (parquet_files w)(p \<mapsto> \<lparr> file_schema = sch, row_groups = [] \<rparr>)
   \<and> disk_quota w1 = disk_quota w"
  by (auto simp: ParquetWriter_def)

lemma write_chunks_open:
  "write_chunks L p dc ic reader (Some wr) w = (r, writer', w') \<Longrightarrow>
     writer' = Some wr \<and> open_writers w' = open_writers w"
proof (induction reader arbitrary: w)
  case Nil
  then show ?case by simp
next
  case (Cons item reader)
  show ?case
  proof (cases item)
    case (Inl e)
    with Cons.prems show ?thesis by simp
  next
    case (Inr chunk)
    show ?thesis
    proof (cases "chunk_to_table L dc ic chunk")
      case (Inl e)
      with Cons.prems Inr show ?thesis by simp
    next
      case t: (Inr t)
      show ?thesis
      proof (cases "write_table wr t w")
        case (Inl e)
        with Cons.prems Inr t show ?thesis by simp
      next
        case w2: (Inr w2)
        with Cons.prems Inr t
        have "write_chunks L p dc ic reader (Some wr) w2 = (r, writer', w')" by simp
        from Cons.IH[OF this] write_table_Inr[OF w2] show ?thesis by simp
      qed
    qed
  qed
qed

lemma write_chunks_fresh:
  "write_chunks L p dc ic reader None w = (r, writer', w') \<Longrightarrow>
     (case writer' of
        None \<Rightarrow> open_writers w' = open_writers w \<and> parquet_files w' = parquet_files w
      | Some wr \<Rightarrow> writer_path wr = p \<and> open_writers w' = insert p (open_writers w))"
proof (induction reader)
  case Nil
  then show ?case by simp
next
  case (Cons item reader)
  show ?case
  proof (cases item)
    case (Inl e)
    with Cons.prems show ?thesis by simp
  next
    case (Inr chunk)
    show ?thesis
    proof (cases "chunk_to_table L dc ic chunk")
      case (Inl e)
      with Cons.prems Inr show ?thesis by simp
    next
      case t: (Inr t)
      obtain wr w1 where pw: "ParquetWriter p (table_schema t) (mkdir_parents (parent p) w) = (wr, w1)"
        by (cases "ParquetWriter p (table_schema t) (mkdir_parents (parent p) w)")
      note pwf = ParquetWriter_eq[OF pw]
      show ?thesis
      proof (cases "write_table wr t w1")
        case (Inl e)
        with Cons.prems Inr t pw pwf show ?thesis by auto
      next
        case w2: (Inr w2)
        with Cons.prems Inr t pw
        have "write_chunks L p dc ic reader (Some wr) w2 = (r, writer', w')" by simp
        from write_chunks_open[OF this] write_table_Inr[OF w2] pwf show ?thesis by simp
      qed
    qed
  qed
qed

lemma write_reader_unfold:
  "write_chunks L p dc ic reader None w = (r, writer, w1) \<Longrightarrow>
   write_reader L p dc ic reader w =
     (r, case writer of None \<Rightarrow> w1 | Some wr \<Rightarrow> writer_close wr w1)"
  by (simp add: write_reader_def)

lemma write_reader_effect:
  assumes "write_chunks L p dc ic reader None w = (r, writer, w1)"
  shows "fst (write_reader L p dc ic reader w) = r"
    and "parquet_files (snd (write_reader L p dc ic reader w)) = parquet_files w1"
    and "writer \<noteq> None \<Longrightarrow> p \<in> open_writers w1"
    and "open_writers (snd (write_reader L p dc ic reader w)) =
           (if writer = None then open_writers w else open_writers w - {p})"
proof -
  note u = write_reader_unfold[OF assms]
  note f = write_chunks_fresh[OF assms]
  show "fst (write_reader L p dc ic reader w) = r" by (simp add: u)
  show "parquet_files (snd (write_reader L p dc ic reader w)) = parquet_files w1"
    by (cases writer) (simp_all add: u writer_close_def)
  show "writer \<noteq> None \<Longrightarrow> p \<in> open_writers w1"
    using f by (cases writer) simp_all
  show "open_writers (snd (write_reader L p dc ic reader w)) =
           (if writer = None then open_writers w else open_writers w - {p})"
    using f by (cases writer) (simp_all add: u writer_close_def)
qed

text \<open>
  C9. Whatever the reader yields and wherever an error is raised (by the reader, by the
  preparation of a chunk, by the writer), the streaming conversion leaves no writer open:
  with no writer open on the target before, the set of open writers after the \<open>try\<close> with
  its \<open>finally\<close> is the set before, for the loop over any reader and for the whole function.
  The result of the loop, an error included, is passed on, the file stays as the loop left
  it, and a writer the loop had opened was open when the loop was left.
\<close>

theorem streaming_writer_always_closed:
  assumes "p \<notin> open_writers w"
  shows "open_writers (snd (write_reader L p dc ic reader w)) = open_writers w
       \<and> open_writers (snd (write_parquet_streaming L tsv p chunksize dc ic w)) = open_writers w
       \<and> (case write_chunks L p dc ic reader None w of
             (r, writer, w1) \<Rightarrow>
               fst (write_reader L p dc ic reader w) = r
             \<and> parquet_files (snd (write_reader L p dc ic reader w)) = parquet_files w1
             \<and> (writer \<noteq> None \<longrightarrow> p \<in> open_writers w1))"
proof -
  have closed: "open_writers (snd (write_reader L p dc ic rd w)) = open_writers w" for rd
  proof -
    obtain r writer w1 where wc: "write_chunks L p dc ic rd None w = (r, writer, w1)"
      by (cases "write_chunks L p dc ic rd None w")
    from write_reader_effect(4)[OF wc] assms show ?thesis by simp
  qed
  have stream: "open_writers (snd (write_parquet_streaming L tsv p chunksize dc ic w)) = open_writers w"
    by (cases "read_csv_chunked tsv chunksize") (simp_all add: write_parquet_streaming_def closed)
  obtain r writer w1 where wc: "write_chunks L p dc ic reader None w = (r, writer, w1)"
    by (cases "write_chunks L p dc ic reader None w")
  from write_reader_effect(1-3)[OF wc] closed stream show ?thesis
    by (simp add: wc)
qed

theorem streaming_writer_always_closed_witness:
  "fst (write_reader example_pandas example_parquet None (Some [''n''])
          [Inr [(''n'', ObjectCol [Str ''1'', Str ''2''])], Inr [(''n'', ObjectCol [Str ''2.5''])]]
          example_world) = Inl SchemaMismatch
   \<and> open_writers (snd (write_reader example_pandas example_parquet None (Some [''n''])
          [Inr [(''n'', ObjectCol [Str ''1'', Str ''2''])], Inr [(''n'', ObjectCol [Str ''2.5''])]]
          example_world)) = {}
   \<and> parquet_files (snd (write_reader example_pandas example_parquet None (Some [''n''])
          [Inr [(''n'', ObjectCol [Str ''1'', Str ''2''])], Inr [(''n'', ObjectCol [Str ''2.5''])]]
          example_world)) example_parquet =
       Some \<lparr> file_schema = [(''n'', ArrowInt64)],
              row_groups = [[(''n'', Int64Col [Some 1, Some 2])]] \<rparr>"
proof -
  have ev: "fst (write_reader example_pandas example_parquet None (Some [''n''])
          [Inr [(''n'', ObjectCol [Str ''1'', Str ''2''])], Inr [(''n'', ObjectCol [Str ''2.5''])]]
          example_world) = Inl SchemaMismatch"
    by code_simp
  have ev2: "parquet_files (snd (write_reader example_pandas example_parquet None (Some [''n''])
          [Inr [(''n'', ObjectCol [Str ''1'', Str ''2''])], Inr [(''n'', ObjectCol [Str ''2.5''])]]
          example_world)) example_parquet =
       Some \<lparr> file_schema = [(''n'', ArrowInt64)],
              row_groups = [[(''n'', Int64Col [Some 1, Some 2])]] \<rparr>"
    by code_simp
  have h: "example_parquet \<notin> open_writers example_world"
    by (simp add: example_world_def)
  have "open_writers example_world = {}" by (simp add: example_world_def)
  with streaming_writer_always_closed [OF h, of example_pandas None "Some [''n'']"
      "[Inr [(''n'', ObjectCol [Str ''1'', Str ''2''])], Inr [(''n'', ObjectCol [Str ''2.5''])]]"]
    ev ev2
  show ?thesis by simp
qed

lemma chunk_to_table_schema:
  "chunk_to_table L dc ic c = Inr t \<Longrightarrow> schema_of (table_data t) = Inr (table_schema t)"
  by (auto simp: chunk_to_table_def from_pandas_def split: sum.splits)

lemma write_chunks_schema_open:
  assumes "write_chunks L p dc ic reader (Some wr) w = (r, writer', w')"
    and "writer_path wr = p"
    and "parquet_files w p = Some f"
    and "file_schema f = writer_schema wr"
    and "\<forall>g\<in>set (row_groups f). schema_of g = Inr (writer_schema wr)"
  shows "\<exists>f'. parquet_files w' p = Some f' \<and> file_schema f' = writer_schema wr
           \<and> (\<forall>g\<in>set (row_groups f'). schema_of g = Inr (writer_schema wr))
           \<and> (r = Inr () \<longrightarrow>
                (\<forall>c. Inr c \<in> set reader \<longrightarrow>
                   (\<exists>t. chunk_to_table L dc ic c = Inr t \<and> table_schema t = writer_schema wr)))"
  using assms
proof (induction reader arbitrary: w f)
  case Nil
  then show ?case by simp
next
  case (Cons item reader)
  show ?case
  proof (cases item)
    case (Inl e)
    with Cons.prems show ?thesis by auto
  next
    case (Inr chunk)
    show ?thesis
    proof (cases "chunk_to_table L dc ic chunk")
      case (Inl e)
      with Cons.prems Inr show ?thesis by auto
    next
      case t: (Inr t)
      show ?thesis
      proof (cases "write_table wr t w")
        case (Inl e)
        with Cons.prems Inr t show ?thesis by auto
      next
        case w2: (Inr w2)
        note wt = write_table_Inr[OF w2]
        define f2 where "f2 = \<lparr> file_schema = writer_schema wr,
                                row_groups = row_groups f @ [table_data t] \<rparr>"
        have rec: "write_chunks L p dc ic reader (Some wr) w2 = (r, writer', w')"
          using Cons.prems(1) Inr t w2 by simp
        have fl: "parquet_files w2 p = Some f2"
          using wt Cons.prems(2,3) by (simp add: f2_def)
        have sch: "file_schema f2 = writer_schema wr" by (simp add: f2_def)
        have "schema_of (table_data t) = Inr (writer_schema wr)"
          using chunk_to_table_schema[OF t] wt by simp
        then have groups: "\<forall>g\<in>set (row_groups f2). schema_of g = Inr (writer_schema wr)"
          using Cons.prems(5) by (auto simp: f2_def)
        from Cons.IH[OF rec Cons.prems(2) fl sch groups]
        obtain f' where f': "parquet_files w' p = Some f'" "file_schema f' = writer_schema wr"
          "\<forall>g\<in>set (row_groups f'). schema_of g = Inr (writer_schema wr)"
          "r = Inr () \<longrightarrow> (\<forall>c. Inr c \<in> set reader \<longrightarrow>
                   (\<exists>t. chunk_to_table L dc ic c = Inr t \<and> table_schema t = writer_schema wr))"
          by blast
        have "r = Inr () \<longrightarrow> (\<forall>c. Inr c \<in> set (item # reader) \<longrightarrow>
                   (\<exists>t. chunk_to_table L dc ic c = Inr t \<and> table_schema t = writer_schema wr))"
          using f'(4) Inr t wt by auto
        with f'(1-3) show ?thesis by blast
      qed
    qed
  qed
qed

text \<open>
  C2. In a streaming conversion the schema of the output file is the schema of the table
  made from the first chunk, and every row group in the file carries that schema, whether
  the conversion completes or is left by an error. When it completes, every later chunk
  had a table of that same schema: the writer refuses a table of another schema and never
  changes the schema of the file.
\<close>

theorem streaming_schema_fixed_by_first_chunk:
  assumes "chunk_to_table L dc ic chunk0 = Inr t0"
  shows "\<exists>f. parquet_files (snd (write_reader L p dc ic (Inr chunk0 # reader) w)) p = Some f
           \<and> file_schema f = table_schema t0
           \<and> (\<forall>g\<in>set (row_groups f). schema_of g = Inr (table_schema t0))
           \<and> (fst (write_reader L p dc ic (Inr chunk0 # reader) w) = Inr () \<longrightarrow>
                (\<forall>c. Inr c \<in> set reader \<longrightarrow>
                   (\<exists>t. chunk_to_table L dc ic c = Inr t \<and> table_schema t = table_schema t0)))"
proof -
  obtain wr w1 where pw: "ParquetWriter p (table_schema t0) (mkdir_parents (parent p) w) = (wr, w1)"
    by (cases "ParquetWriter p (table_schema t0) (mkdir_parents (parent p) w)")
  note pwf = ParquetWriter_eq[OF pw]
  obtain r writer w' where wc:
    "write_chunks L p dc ic (Inr chunk0 # reader) None w = (r, writer, w')"
    by (cases "write_chunks L p dc ic (Inr chunk0 # reader) None w")
  note eff = write_reader_effect(1,2)[OF wc]
  show ?thesis
  proof (cases "write_table wr t0 w1")
    case (Inl e)
    with wc assms pw have "r = Inl e" "w' = w1" by simp_all
    with eff pwf show ?thesis by simp
  next
    case w2: (Inr w2)
    note wt = write_table_Inr[OF w2]
    define f2 where "f2 = \<lparr> file_schema = writer_schema wr, row_groups = [table_data t0] \<rparr>"
    have rec: "write_chunks L p dc ic reader (Some wr) w2 = (r, writer, w')"
      using wc assms pw w2 by simp
    have fl: "parquet_files w2 p = Some f2"
      using wt pwf by (simp add: f2_def)
    have groups: "\<forall>g\<in>set (row_groups f2). schema_of g = Inr (writer_schema wr)"
      using chunk_to_table_schema[OF assms] pwf by (simp add: f2_def)
    from write_chunks_schema_open[OF rec _ fl _ groups]
    obtain f' where "parquet_files w' p = Some f'" "file_schema f' = writer_schema wr"
      "\<forall>g\<in>set (row_groups f'). schema_of g = Inr (writer_schema wr)"
      "r = Inr () \<longrightarrow> (\<forall>c. Inr c \<in> set reader \<longrightarrow>
         (\<exists>t. chunk_to_table L dc ic c = Inr t \<and> table_schema t = writer_schema wr))"
      using pwf by (auto simp: f2_def)
    with eff pwf show ?thesis by simp
  qed
qed

theorem streaming_schema_fixed_by_first_chunk_witness:
  "fst (write_reader example_pandas example_parquet None (Some [''n''])
          [Inr [(''n'', ObjectCol [Str ''1'', Str ''2''])], Inr [(''n'', ObjectCol [Str ''3''])]]
          example_world) = Inr ()
   \<and> parquet_files (snd (write_reader example_pandas example_parquet None (Some [''n''])
          [Inr [(''n'', ObjectCol [Str ''1'', Str ''2''])], Inr [(''n'', ObjectCol [Str ''3''])]]
          example_world)) example_parquet =
       Some \<lparr> file_schema = [(''n'', ArrowInt64)],
              row_groups = [[(''n'', Int64Col [Some 1, Some 2])], [(''n'', Int64Col [Some 3])]] \<rparr>
   \<and> chunk_to_table example_pandas None (Some [''n'']) [(''n'', ObjectCol [Str ''3''])] =
       Inr \<lparr> table_schema = [(''n'', ArrowInt64)], table_data = [(''n'', Int64Col [Some 3])] \<rparr>"
proof -
  have first: "chunk_to_table example_pandas None (Some [''n''])
      [(''n'', ObjectCol [Str ''1'', Str ''2''])] =
      Inr \<lparr> table_schema = [(''n'', ArrowInt64)],
            table_data = [(''n'', Int64Col [Some 1, Some 2])] \<rparr>"
    by code_simp
  have second: "chunk_to_table example_pandas None (Some [''n'']) [(''n'', ObjectCol [Str ''3''])] =
      Inr \<lparr> table_schema = [(''n'', ArrowInt64)], table_data = [(''n'', Int64Col [Some 3])] \<rparr>"
    by code_simp
  have ok: "fst (write_reader example_pandas example_parquet None (Some [''n''])
          [Inr [(''n'', ObjectCol [Str ''1'', Str ''2''])], Inr [(''n'', ObjectCol [Str ''3''])]]
          example_world) = Inr ()"
    by code_simp
  have out: "parquet_files (snd (write_reader example_pandas example_parquet None (Some [''n''])
          [Inr [(''n'', ObjectCol [Str ''1'', Str ''2''])], Inr [(''n'', ObjectCol [Str ''3''])]]
          example_world)) example_parquet =
       Some \<lparr> file_schema = [(''n'', ArrowInt64)],
              row_groups = [[(''n'', Int64Col [Some 1, Some 2])], [(''n'', Int64Col [Some 3])]] \<rparr>"
    by code_simp
  show ?thesis
    using streaming_schema_fixed_by_first_chunk [OF first, of example_parquet
        "[Inr [(''n'', ObjectCol [Str ''3''])]]" example_world]
      ok out second
    by simp
qed

section \<open>The two strategies on the same rows\<close>

lemma strip_wide: "strip_cell (Str wide_text) = Str wide_text"
  by code_simp

lemma strip_plain: "strip_cell (Str ''1'') = Str ''1''" "strip_cell (Str ''2.5'') = Str ''2.5''"
  by code_simp+

lemma chunksize_pos: "1 < DEFAULT_CHUNKSIZE"
  by (simp add: DEFAULT_CHUNKSIZE_def)

lemma two_chunks: "(DEFAULT_CHUNKSIZE + 1 + DEFAULT_CHUNKSIZE - 1) div DEFAULT_CHUNKSIZE = 2"
  by (simp add: DEFAULT_CHUNKSIZE_def)

lemma upt_2: "[0..<2] = [0, 1]"
  by (simp add: upt_rec)

lemma chunks_of_mixed_rows:
  "read_csv_chunked mixed_rows DEFAULT_CHUNKSIZE =
     Inr [Inr [(''n'', ObjectCol (replicate DEFAULT_CHUNKSIZE (Str ''1''))),
               (''text'', ObjectCol (replicate DEFAULT_CHUNKSIZE (Str wide_text)))],
          Inr [(''n'', ObjectCol [Str ''2.5'']), (''text'', ObjectCol [Str wide_text])]]"
proof -
  have n: "nrows mixed_rows = DEFAULT_CHUNKSIZE + 1"
    by (simp add: nrows_def mixed_rows_def)
  have c0: "read_csv (rows_slice (0 * DEFAULT_CHUNKSIZE) DEFAULT_CHUNKSIZE mixed_rows) =
      [(''n'', ObjectCol (replicate DEFAULT_CHUNKSIZE (Str ''1''))),
       (''text'', ObjectCol (replicate DEFAULT_CHUNKSIZE (Str wide_text)))]"
    by (simp add: read_csv_def rows_slice_def mixed_rows_def)
  have c1: "read_csv (rows_slice (1 * DEFAULT_CHUNKSIZE) DEFAULT_CHUNKSIZE mixed_rows) =
      [(''n'', ObjectCol [Str ''2.5'']), (''text'', ObjectCol [Str wide_text])]"
    using chunksize_pos by (simp add: read_csv_def rows_slice_def mixed_rows_def)
  have "read_csv_chunked mixed_rows DEFAULT_CHUNKSIZE =
      Inr (map (\<lambda>k. Inr (read_csv (rows_slice (k * DEFAULT_CHUNKSIZE) DEFAULT_CHUNKSIZE mixed_rows)))
             [0, 1])"
    unfolding read_csv_chunked_def n two_chunks upt_2 using chunksize_pos by simp
  then show ?thesis by (simp only: list.map c0 c1)
qed

lemma example_numbers: "to_numeric example_pandas ''1'' = Some 1"
  "to_numeric example_pandas ''2.5'' = Some (5 / 2)"
proof -
  have "example_number ''1'' = Some 1" by code_simp
  then show "to_numeric example_pandas ''1'' = Some 1" by (simp add: example_pandas_def)
  have "example_number ''2.5'' = Some (5 / 2)" by code_simp
  then show "to_numeric example_pandas ''2.5'' = Some (5 / 2)" by (simp add: example_pandas_def)
qed

lemma integer_col_ones:
  "integer_col example_pandas (ObjectCol (replicate DEFAULT_CHUNKSIZE (Str ''1''))) =
      Int64Col (replicate DEFAULT_CHUNKSIZE (Some 1))"
  using integer_col_strings[of example_pandas "replicate DEFAULT_CHUNKSIZE ''1''"] chunksize_pos
  by (simp add: example_numbers)

lemma prepared_first_chunk:
  "parse_integer_columns example_pandas
     (parse_date_columns example_pandas
        (strip_outer_quotes
           [(''n'', ObjectCol (replicate DEFAULT_CHUNKSIZE (Str ''1''))),
            (''text'', ObjectCol (replicate DEFAULT_CHUNKSIZE (Str wide_text)))]) None)
     (Some [''n'']) =
   [(''n'', Int64Col (replicate DEFAULT_CHUNKSIZE (Some 1))),
    (''text'', ObjectCol (replicate DEFAULT_CHUNKSIZE (Str wide_text)))]"
proof -
  have s: "strip_outer_quotes
           [(''n'', ObjectCol (replicate DEFAULT_CHUNKSIZE (Str ''1''))),
            (''text'', ObjectCol (replicate DEFAULT_CHUNKSIZE (Str wide_text)))] =
           [(''n'', ObjectCol (replicate DEFAULT_CHUNKSIZE (Str ''1''))),
            (''text'', ObjectCol (replicate DEFAULT_CHUNKSIZE (Str wide_text)))]"
    by (simp add: strip_outer_quotes_def strip_wide strip_plain del: strip_cell.simps)
  show ?thesis
    unfolding s
    by (simp add: parse_date_columns_def parse_integer_columns_def parse_integer_step_def
        set_column_def integer_col_ones)
qed

lemma first_chunk_table:
  "chunk_to_table example_pandas None (Some [''n''])
     [(''n'', ObjectCol (replicate DEFAULT_CHUNKSIZE (Str ''1''))),
      (''text'', ObjectCol (replicate DEFAULT_CHUNKSIZE (Str wide_text)))] =
   Inr \<lparr> table_schema = [(''n'', ArrowInt64), (''text'', ArrowString)],
         table_data = [(''n'', Int64Col (replicate DEFAULT_CHUNKSIZE (Some 1))),
                       (''text'', ObjectCol (replicate DEFAULT_CHUNKSIZE (Str wide_text)))] \<rparr>"
proof -
  have t: "arrow_type_of (ObjectCol (replicate DEFAULT_CHUNKSIZE (Str wide_text))) = Inr ArrowString"
    using chunksize_pos by (simp add: Let_def list_all_iff)
  have sch: "schema_of [(''n'', Int64Col (replicate DEFAULT_CHUNKSIZE (Some 1))),
                        (''text'', ObjectCol (replicate DEFAULT_CHUNKSIZE (Str wide_text)))] =
      Inr [(''n'', ArrowInt64), (''text'', ArrowString)]"
    by (simp only: schema_of.simps arrow_type_of.simps(1) t sum.case)
  show ?thesis
    unfolding chunk_to_table_def apply_column_limit_id sum.case prepared_first_chunk
      from_pandas_def sch ..
qed

lemma second_chunk_table:
  "chunk_to_table example_pandas None (Some [''n''])
     [(''n'', ObjectCol [Str ''2.5'']), (''text'', ObjectCol [Str wide_text])] =
   Inr \<lparr> table_schema = [(''n'', ArrowDouble), (''text'', ArrowString)],
         table_data = [(''n'', Float64Col [Some (5 / 2)]),
                       (''text'', ObjectCol [Str wide_text])] \<rparr>"
  by code_simp

lemma write_chunks_first:
  "chunk_to_table L dc ic c = Inr t \<Longrightarrow>
   ParquetWriter p (table_schema t) (mkdir_parents (parent p) w) = (wr, w1) \<Longrightarrow>
   write_table wr t w1 = Inr w2 \<Longrightarrow>
   write_chunks L p dc ic (Inr c # rd) None w = write_chunks L p dc ic rd (Some wr) w2"
  by simp

lemma write_chunks_next:
  "chunk_to_table L dc ic c = Inr t \<Longrightarrow> write_table wr t w = Inr w2 \<Longrightarrow>
   write_chunks L p dc ic (Inr c # rd) (Some wr) w = write_chunks L p dc ic rd (Some wr) w2"
  by simp

lemma write_chunks_next_fail:
  "chunk_to_table L dc ic c = Inr t \<Longrightarrow> write_table wr t w = Inl e \<Longrightarrow>
   write_chunks L p dc ic (Inr c # rd) (Some wr) w = (Inl e, Some wr, w)"
  by simp

lemma mixed_stream_fails:
  assumes "disk_quota w \<noteq> Some 0"
  shows "fst (write_parquet_streaming example_pandas mixed_rows p DEFAULT_CHUNKSIZE None
               (Some [''n'']) w) = Inl SchemaMismatch"
    and "parquet_files (snd (write_parquet_streaming example_pandas mixed_rows p DEFAULT_CHUNKSIZE
               None (Some [''n'']) w)) p =
         Some \<lparr> file_schema = [(''n'', ArrowInt64), (''text'', ArrowString)],
                row_groups = [[(''n'', Int64Col (replicate DEFAULT_CHUNKSIZE (Some 1))),
                               (''text'', ObjectCol (replicate DEFAULT_CHUNKSIZE (Str wide_text)))]] \<rparr>"
proof -
  let ?t1 = "\<lparr> table_schema = [(''n'', ArrowInt64), (''text'', ArrowString)],
         table_data = [(''n'', Int64Col (replicate DEFAULT_CHUNKSIZE (Some 1))),
                       (''text'', ObjectCol (replicate DEFAULT_CHUNKSIZE (Str wide_text)))] \<rparr>"
  let ?t2 = "\<lparr> table_schema = [(''n'', ArrowDouble), (''text'', ArrowString)],
         table_data = [(''n'', Float64Col [Some (5 / 2)]),
                       (''text'', ObjectCol [Str wide_text])] \<rparr>"
  obtain wr w1 where pw: "ParquetWriter p (table_schema ?t1) (mkdir_parents (parent p) w) = (wr, w1)"
    by (cases "ParquetWriter p (table_schema ?t1) (mkdir_parents (parent p) w)")
  note pwf = ParquetWriter_eq[OF pw]
  have q: "disk_quota w1 \<noteq> Some 0" using pwf assms by simp
  obtain w2 where w2: "write_table wr ?t1 w1 = Inr w2"
    using q pwf by (simp add: write_table_def)
  note wt = write_table_Inr[OF w2]
  have fail: "write_table wr ?t2 w2 = Inl SchemaMismatch"
    using pwf by (simp add: write_table_def)
  have loop: "write_chunks example_pandas p None (Some [''n''])
      [Inr [(''n'', ObjectCol (replicate DEFAULT_CHUNKSIZE (Str ''1''))),
            (''text'', ObjectCol (replicate DEFAULT_CHUNKSIZE (Str wide_text)))],
       Inr [(''n'', ObjectCol [Str ''2.5'']), (''text'', ObjectCol [Str wide_text])]] None w =
      (Inl SchemaMismatch, Some wr, w2)"
    by (simp only: write_chunks_first[OF first_chunk_table pw w2]
        write_chunks_next_fail[OF second_chunk_table fail])
  have res: "write_parquet_streaming example_pandas mixed_rows p DEFAULT_CHUNKSIZE None
               (Some [''n'']) w = (Inl SchemaMismatch, writer_close wr w2)"
    unfolding write_parquet_streaming_def chunks_of_mixed_rows sum.case write_reader_def loop
    by simp
  show "fst (write_parquet_streaming example_pandas mixed_rows p DEFAULT_CHUNKSIZE None
               (Some [''n'']) w) = Inl SchemaMismatch"
    by (simp add: res)
  show "parquet_files (snd (write_parquet_streaming example_pandas mixed_rows p DEFAULT_CHUNKSIZE
               None (Some [''n'']) w)) p =
         Some \<lparr> file_schema = [(''n'', ArrowInt64), (''text'', ArrowString)],
                row_groups = [[(''n'', Int64Col (replicate DEFAULT_CHUNKSIZE (Some 1))),
                               (''text'', ObjectCol (replicate DEFAULT_CHUNKSIZE (Str wide_text)))]] \<rparr>"
    using wt pwf by (simp add: res writer_close_def)
qed

lemma integer_col_mixed:
  "integer_col example_pandas
     (ObjectCol (replicate DEFAULT_CHUNKSIZE (Str ''1'') @ [Str ''2.5''])) =
   Float64Col (replicate DEFAULT_CHUNKSIZE (Some 1) @ [Some (5 / 2)])"
proof -
  have r: "round (5 / 2 :: rat) = 3" by (simp add: round_def)
  have "Some (5 / 2) \<in> set (map (to_numeric example_pandas)
            (replicate DEFAULT_CHUNKSIZE ''1'' @ [''2.5'']))"
    by (simp add: example_numbers)
  moreover have "\<not> \<bar>(5 / 2 :: rat) - of_int (round (5 / 2 :: rat))\<bar> < 1 / 10 ^ 10"
    by (simp add: r)
  ultimately have nw: "\<not> (\<forall>v. Some v \<in> set (map (to_numeric example_pandas)
            (replicate DEFAULT_CHUNKSIZE ''1'' @ [''2.5''])) \<longrightarrow>
             \<bar>v - of_int (round v)\<bar> < 1 / 10 ^ 10)"
    by blast
  show ?thesis
    using integer_col_strings[of example_pandas "replicate DEFAULT_CHUNKSIZE ''1'' @ [''2.5'']"]
    unfolding if_not_P[OF nw] by (simp add: example_numbers)
qed

lemma mixed_buffered_succeeds:
  assumes "disk_quota w \<noteq> Some 0"
  shows "to_parquet
           (parse_integer_columns example_pandas
              (parse_date_columns example_pandas (strip_outer_quotes (read_csv mixed_rows)) None)
              (Some [''n''])) p w =
         (Inr (),
          w\<lparr> parquet_files := (parquet_files w)(p \<mapsto>
                \<lparr> file_schema = [(''n'', ArrowDouble), (''text'', ArrowString)],
                  row_groups =
                    [[(''n'', Float64Col (replicate DEFAULT_CHUNKSIZE (Some 1) @ [Some (5 / 2)])),
                      (''text'', ObjectCol (replicate DEFAULT_CHUNKSIZE (Str wide_text)
                                             @ [Str wide_text]))]] \<rparr>),
             open_writers := open_writers w - {p},
             disk_quota := map_option (\<lambda>q. q - 1) (disk_quota w) \<rparr>)"
proof -
  have s: "strip_outer_quotes (read_csv mixed_rows) =
      [(''n'', ObjectCol (replicate DEFAULT_CHUNKSIZE (Str ''1'') @ [Str ''2.5''])),
       (''text'', ObjectCol (replicate DEFAULT_CHUNKSIZE (Str wide_text) @ [Str wide_text]))]"
    by (simp add: strip_outer_quotes_def read_csv_def mixed_rows_def strip_wide strip_plain
        del: strip_cell.simps)
  have df: "parse_integer_columns example_pandas
              (parse_date_columns example_pandas (strip_outer_quotes (read_csv mixed_rows)) None)
              (Some [''n'']) =
      [(''n'', Float64Col (replicate DEFAULT_CHUNKSIZE (Some 1) @ [Some (5 / 2)])),
       (''text'', ObjectCol (replicate DEFAULT_CHUNKSIZE (Str wide_text) @ [Str wide_text]))]"
    unfolding s
    by (simp add: parse_date_columns_def parse_integer_columns_def parse_integer_step_def
        set_column_def integer_col_mixed)
  have t: "arrow_type_of (ObjectCol (replicate DEFAULT_CHUNKSIZE (Str wide_text) @ [Str wide_text]))
      = Inr ArrowString"
    by (simp add: Let_def list_all_iff)
  have sch: "schema_of
      [(''n'', Float64Col (replicate DEFAULT_CHUNKSIZE (Some 1) @ [Some (5 / 2)])),
       (''text'', ObjectCol (replicate DEFAULT_CHUNKSIZE (Str wide_text) @ [Str wide_text]))] =
      Inr [(''n'', ArrowDouble), (''text'', ArrowString)]"
    by (simp only: schema_of.simps arrow_type_of.simps(2) t sum.case)
  have fp: "from_pandas
      [(''n'', Float64Col (replicate DEFAULT_CHUNKSIZE (Some 1) @ [Some (5 / 2)])),
       (''text'', ObjectCol (replicate DEFAULT_CHUNKSIZE (Str wide_text) @ [Str wide_text]))] =
      Inr \<lparr> table_schema = [(''n'', ArrowDouble), (''text'', ArrowString)],
            table_data =
              [(''n'', Float64Col (replicate DEFAULT_CHUNKSIZE (Some 1) @ [Some (5 / 2)])),
               (''text'', ObjectCol (replicate DEFAULT_CHUNKSIZE (Str wide_text)
                                      @ [Str wide_text]))] \<rparr>"
    unfolding from_pandas_def sch by simp
  show ?thesis
    unfolding df to_parquet_def fp using assms
    by (simp add: ParquetWriter_def write_table_def writer_close_def)
qed

lemma integer_world_types:
  "get_column_types (schema_files integer_world (ds, tbl)) = (None, Some [''n''])"
  by (simp add: integer_world_def get_column_types_def)

lemma integer_world_quota: "disk_quota integer_world = None"
  by (simp add: integer_world_def example_world_def)

lemma g_claims_chunksize: "\<not> contains ''abstract'' ''g_claims''"
  by code_simp

lemma large_member_streams:
  "use_streaming (file_size large_member)"
  "\<not> use_streaming (SIZE_THRESHOLD_BYTES - 1)"
  "\<not> use_streaming (SIZE_THRESHOLD_BYTES - Suc 0)"
  by (simp_all add: use_streaming_def large_member_def SIZE_THRESHOLD_BYTES_def)

text \<open>
  C1. The two strategies do not agree on \<open>large_member\<close>. Streamed in chunks of 500000
  rows, the first chunk makes \<open>n\<close> an \<open>int64\<close> column and fixes the schema, the second chunk
  makes it a \<open>double\<close> column, and the writer raises: the conversion fails and leaves a file
  of the first chunk only. The same rows converted in memory (the size forced below the
  threshold) give a file of all rows whose column \<open>n\<close> is \<open>double\<close>.
\<close>

theorem streaming_differs_from_buffered:
  "fst (convert_member_to_parquet example_pandas example_zip large_member ''g_claims''
          example_parquet example_log ''granted'' integer_world) = Inl SchemaMismatch
   \<and> parquet_files (snd (convert_member_to_parquet example_pandas example_zip large_member
          ''g_claims'' example_parquet example_log ''granted'' integer_world)) example_parquet =
       Some \<lparr> file_schema = [(''n'', ArrowInt64), (''text'', ArrowString)],
              row_groups = [[(''n'', Int64Col (replicate DEFAULT_CHUNKSIZE (Some 1))),
                             (''text'', ObjectCol (replicate DEFAULT_CHUNKSIZE (Str wide_text)))]] \<rparr>
   \<and> fst (convert_member_to_parquet example_pandas example_zip
          (large_member\<lparr> file_size := SIZE_THRESHOLD_BYTES - 1 \<rparr>) ''g_claims''
          example_parquet example_log ''granted'' integer_world) = Inr ()
   \<and> parquet_files (snd (convert_member_to_parquet example_pandas example_zip
          (large_member\<lparr> file_size := SIZE_THRESHOLD_BYTES - 1 \<rparr>) ''g_claims''
          example_parquet example_log ''granted'' integer_world)) example_parquet =
       Some \<lparr> file_schema = [(''n'', ArrowDouble), (''text'', ArrowString)],
              row_groups =
                [[(''n'', Float64Col (replicate DEFAULT_CHUNKSIZE (Some 1) @ [Some (5 / 2)])),
                  (''text'', ObjectCol (replicate DEFAULT_CHUNKSIZE (Str wide_text)
                                         @ [Str wide_text]))]] \<rparr>"
proof -
  let ?w0 = "integer_world\<lparr> archive_reads :=
               archive_reads integer_world @ [(example_zip, ''g_claims.tsv'')] \<rparr>"
  let ?w1 = "log_write example_log
               (LogStreaming ''g_claims'' (file_size large_member) DEFAULT_CHUNKSIZE) ?w0"
  have q1: "disk_quota ?w1 \<noteq> Some 0"
    by (simp add: log_write_def integer_world_quota)
  have streaming: "convert_member_to_parquet example_pandas example_zip large_member ''g_claims''
          example_parquet example_log ''granted'' integer_world =
        write_parquet_streaming example_pandas mixed_rows example_parquet DEFAULT_CHUNKSIZE
          None (Some [''n'']) ?w1"
    unfolding convert_member_to_parquet_def integer_world_types
    by (simp add: large_member_streams g_claims_chunksize Let_def)
       (simp add: large_member_def)
  let ?w2 = "mkdir_parents (parent example_parquet) ?w0"
  have q2: "disk_quota ?w2 \<noteq> Some 0"
    by (simp add: integer_world_quota)
  have buffered: "fst (convert_member_to_parquet example_pandas example_zip
          (large_member\<lparr> file_size := SIZE_THRESHOLD_BYTES - 1 \<rparr>) ''g_claims''
          example_parquet example_log ''granted'' integer_world) = Inr ()
     \<and> parquet_files (snd (convert_member_to_parquet example_pandas example_zip
          (large_member\<lparr> file_size := SIZE_THRESHOLD_BYTES - 1 \<rparr>) ''g_claims''
          example_parquet example_log ''granted'' integer_world)) example_parquet =
       Some \<lparr> file_schema = [(''n'', ArrowDouble), (''text'', ArrowString)],
              row_groups =
                [[(''n'', Float64Col (replicate DEFAULT_CHUNKSIZE (Some 1) @ [Some (5 / 2)])),
                  (''text'', ObjectCol (replicate DEFAULT_CHUNKSIZE (Str wide_text)
                                         @ [Str wide_text]))]] \<rparr>"
    unfolding convert_member_to_parquet_def integer_world_types
    using mixed_buffered_succeeds[OF q2, of example_parquet]
    by (simp add: large_member_streams Let_def large_member_def log_write_def)
  from mixed_stream_fails[OF q1, of example_parquet] buffered show ?thesis
    unfolding streaming by simp
qed

section \<open>Properties of the archive job\<close>

lemma parquet_files_log_write [simp]: "parquet_files (log_write l e w) = parquet_files w"
  by (simp add: log_write_def)

lemma parquet_files_writer_close [simp]: "parquet_files (writer_close wr w) = parquet_files w"
  by (simp add: writer_close_def)

lemma write_chunks_keeps_file:
  "write_chunks L p dc ic reader (Some wr) w = (r, writer', w') \<Longrightarrow> writer_path wr = p \<Longrightarrow>
   p \<in> dom (parquet_files w) \<Longrightarrow> p \<in> dom (parquet_files w')"
proof (induction reader arbitrary: w)
  case Nil
  then show ?case by simp
next
  case (Cons item reader)
  show ?case
  proof (cases item)
    case (Inl e)
    with Cons.prems show ?thesis by simp
  next
    case (Inr chunk)
    show ?thesis
    proof (cases "chunk_to_table L dc ic chunk")
      case (Inl e)
      with Cons.prems Inr show ?thesis by simp
    next
      case t: (Inr t)
      show ?thesis
      proof (cases "write_table wr t w")
        case (Inl e)
        with Cons.prems Inr t show ?thesis by simp
      next
        case w2: (Inr w2)
        with Cons.prems Inr t
        have rec: "write_chunks L p dc ic reader (Some wr) w2 = (r, writer', w')" by simp
        have "p \<in> dom (parquet_files w2)"
          using write_table_Inr[OF w2] Cons.prems(2) by simp
        from Cons.IH[OF rec Cons.prems(2) this] show ?thesis .
      qed
    qed
  qed
qed

lemma write_reader_success_file:
  assumes "write_reader L p dc ic (Inr c # reader) w = (Inr (), w')"
  shows "p \<in> dom (parquet_files w')"
proof -
  obtain r writer w1 where wc: "write_chunks L p dc ic (Inr c # reader) None w = (r, writer, w1)"
    by (cases "write_chunks L p dc ic (Inr c # reader) None w")
  from write_reader_effect(1,2)[OF wc] assms
  have r: "r = Inr ()" and files: "parquet_files w' = parquet_files w1" by simp_all
  obtain t where t: "chunk_to_table L dc ic c = Inr t"
    using wc r by (cases "chunk_to_table L dc ic c") auto
  obtain wr wa where pw: "ParquetWriter p (table_schema t) (mkdir_parents (parent p) w) = (wr, wa)"
    by (cases "ParquetWriter p (table_schema t) (mkdir_parents (parent p) w)")
  note pwf = ParquetWriter_eq[OF pw]
  obtain w2 where w2: "write_table wr t wa = Inr w2"
    using wc r t pw by (cases "write_table wr t wa") auto
  have rec: "write_chunks L p dc ic reader (Some wr) w2 = (r, writer, w1)"
    using wc t pw w2 by simp
  have "p \<in> dom (parquet_files w2)"
    using write_table_Inr[OF w2] pwf by simp
  from write_chunks_keeps_file[OF rec _ this] pwf files show ?thesis by simp
qed

lemma read_csv_chunked_nonempty:
  "read_csv_chunked tsv chunksize = Inr reader \<Longrightarrow> \<exists>c rest. reader = Inr c # rest"
proof -
  assume a: "read_csv_chunked tsv chunksize = Inr reader"
  then have cs: "1 \<le> chunksize" by (auto simp: read_csv_chunked_def split: if_splits)
  show ?thesis
  proof (cases "nrows tsv = 0")
    case True
    with a cs show ?thesis by (auto simp: read_csv_chunked_def)
  next
    case False
    then have "chunksize \<le> nrows tsv + chunksize - 1" by simp
    then have "1 \<le> (nrows tsv + chunksize - 1) div chunksize"
      using cs by (metis div_le_mono div_self not_one_le_zero)
    then obtain k where k: "(nrows tsv + chunksize - 1) div chunksize = Suc k"
      by (cases "(nrows tsv + chunksize - 1) div chunksize") auto
    have "[0..<Suc k] = 0 # [1..<Suc k]" by (simp add: upt_conv_Cons del: upt_Suc)
    with a cs False k show ?thesis
      by (auto simp add: read_csv_chunked_def simp del: upt_Suc)
  qed
qed

lemma streaming_success_file:
  assumes "write_parquet_streaming L tsv p chunksize dc ic w = (Inr (), w')"
  shows "p \<in> dom (parquet_files w')"
proof -
  from assms obtain reader where rd: "read_csv_chunked tsv chunksize = Inr reader"
    by (cases "read_csv_chunked tsv chunksize") (auto simp: write_parquet_streaming_def)
  then obtain c rest where "reader = Inr c # rest"
    using read_csv_chunked_nonempty by blast
  with assms rd have "write_reader L p dc ic (Inr c # rest) w = (Inr (), w')"
    by (simp add: write_parquet_streaming_def)
  then show ?thesis by (rule write_reader_success_file)
qed

lemma to_parquet_success_file:
  "to_parquet df p w = (Inr (), w') \<Longrightarrow> p \<in> dom (parquet_files w')"
  by (auto simp: to_parquet_def ParquetWriter_def write_table_def split: sum.splits if_splits)

lemma convert_member_success_file:
  assumes "convert_member_to_parquet L zp m t p lg ds w = (Inr (), w')"
  shows "p \<in> dom (parquet_files w')"
proof (cases "use_streaming (file_size m)")
  case True
  with assms show ?thesis
    by (auto simp: convert_member_to_parquet_def Let_def split: prod.splits
        dest: streaming_success_file)
next
  case False
  with assms show ?thesis
    by (auto simp: convert_member_to_parquet_def Let_def split: prod.splits sum.splits
        dest: to_parquet_success_file)
qed

lemma convert_members_success_file:
  "convert_members L zp ms t p lg ds w = (Inr (), w') \<Longrightarrow> ms \<noteq> [] \<Longrightarrow>
   p \<in> dom (parquet_files w')"
proof (induction ms arbitrary: w)
  case Nil
  then show ?case by simp
next
  case (Cons m ms)
  obtain r w1 where m: "convert_member_to_parquet L zp m t p lg ds w = (r, w1)"
    by (cases "convert_member_to_parquet L zp m t p lg ds w")
  with Cons.prems have r: "r = Inr ()" by (cases r) auto
  with m Cons.prems have rec: "convert_members L zp ms t p lg ds w1 = (Inr (), w')" by simp
  show ?case
  proof (cases "ms = []")
    case True
    with rec have "w' = w1" by simp
    with convert_member_success_file m r show ?thesis by blast
  next
    case False
    from Cons.IH[OF rec False] show ?thesis .
  qed
qed

lemma convert_zip_success_file:
  assumes "convert_zip L zp t p ds w = (Inr (), w')"
  shows "p \<in> dom (parquet_files w')"
proof (cases "p \<in> dom (parquet_files w)")
  case True
  with assms show ?thesis by (simp add: convert_zip_def path_exists_def domIff)
next
  case False
  with assms show ?thesis
    by (auto simp: convert_zip_def path_exists_def Let_def
        split: option.splits if_splits prod.splits sum.splits
        dest: convert_members_success_file)
qed

lemma archives_log_open [simp]: "archives (log_open_append l w) = archives w"
  by (simp add: log_open_append_def)

lemma archives_mkdir [simp]: "archives (mkdir_parents d w) = archives w"
  by (simp add: mkdir_parents_def)

lemma disk_quota_log_open [simp]: "disk_quota (log_open_append l w) = disk_quota w"
  by (simp add: log_open_append_def)

lemma buffered_member_succeeds:
  assumes "\<not> use_streaming (file_size m)" and "disk_quota w \<noteq> Some 0"
  shows "fst (convert_member_to_parquet L zp m t p lg ds w) = Inr ()"
proof -
  obtain dc ic where ty: "get_column_types (schema_files w (ds, t)) = (dc, ic)"
    by (cases "get_column_types (schema_files w (ds, t))")
  let ?df = "parse_integer_columns L
               (parse_date_columns L (strip_outer_quotes (read_csv (content m))) dc) ic"
  obtain tb where "chunk_to_table L dc ic (read_csv (content m)) = Inr tb"
    using chunk_to_table_total by blast
  then have fp: "from_pandas ?df = Inr tb"
    by (simp add: chunk_to_table_def)
  let ?w1 = "mkdir_parents (parent p)
               (w\<lparr> archive_reads := archive_reads w @ [(zp, filename m)] \<rparr>)"
  have q: "disk_quota ?w1 \<noteq> Some 0" using assms(2) by simp
  obtain r2 w2 where tp: "to_parquet ?df p ?w1 = (r2, w2)"
    by (cases "to_parquet ?df p ?w1")
  have "fst (to_parquet ?df p ?w1) = Inr ()"
    unfolding to_parquet_def fp using q
    by (simp add: ParquetWriter_def write_table_def)
  with tp have r2: "r2 = Inr ()" by simp
  show ?thesis
    unfolding convert_member_to_parquet_def ty using assms(1)
    by (simp add: Let_def tp r2)
qed

lemma single_small_member_converts:
  assumes "\<not> path_exists p w" and "archives w zp = Some [m]"
    and "endswith (filename m) ''.tsv''" and "\<not> use_streaming (file_size m)"
    and "disk_quota w \<noteq> Some 0"
  shows "fst (convert_zip L zp t p ds w) = Inr ()"
proof -
  let ?dir = "BLD @ [''converted'', ds]"
  let ?log = "BLD @ [''converted'', ds, ''conversion_log.txt'']"
  let ?w2 = "log_open_append ?log (mkdir_parents ?dir w)"
  have q: "disk_quota ?w2 \<noteq> Some 0" using assms(5) by simp
  obtain r w3 where cm: "convert_member_to_parquet L zp m t p ?log ds ?w2 = (r, w3)"
    by (cases "convert_member_to_parquet L zp m t p ?log ds ?w2")
  with buffered_member_succeeds[OF assms(4) q, of L zp t p ?log ds]
  have r: "r = Inr ()" by simp
  have ar: "archives ?w2 zp = Some [m]" using assms(2) by simp
  have "convert_zip L zp t p ds w = (Inr (), w3)"
    unfolding convert_zip_def Let_def using assms(1,3)
    by (simp add: assms(2) cm r)
  then show ?thesis by simp
qed

lemma patent_world_run:
  "fst (convert_zip example_pandas patent_zip ''g_patent'' example_parquet ''granted''
          patent_world) = Inr ()"
proof (rule single_small_member_converts)
  show "\<not> path_exists example_parquet patent_world"
    by (simp add: path_exists_def patent_world_def example_world_def)
  show "archives patent_world patent_zip = Some [patent_member]"
    by (simp add: patent_world_def)
  show "endswith (filename patent_member) ''.tsv''"
    by (simp add: endswith_def patent_member_def)
  show "\<not> use_streaming (file_size patent_member)"
    by (simp add: use_streaming_def SIZE_THRESHOLD_BYTES_def patent_member_def)
  show "disk_quota patent_world \<noteq> Some 0"
    by (simp add: patent_world_def example_world_def)
qed

text \<open>
  C6. A job whose target exists returns at once and leaves the world as it was: no
  archive member is opened, no file, directory or log is written. So a second run after a
  run that succeeded is a no-op. (The message printed on the console is not part of the
  world.)
\<close>

theorem existing_output_is_skipped:
  "(parquet \<in> dom (parquet_files w) \<longrightarrow>
      convert_zip L zip_path table parquet dataset w = (Inr (), w))
   \<and> (convert_zip L zip_path table parquet dataset w = (Inr (), w') \<longrightarrow>
      convert_zip L zip_path table parquet dataset w' = (Inr (), w'))"
proof -
  have skip: "convert_zip L zip_path table parquet dataset v = (Inr (), v)"
    if "parquet \<in> dom (parquet_files v)" for v
    using that by (simp add: convert_zip_def path_exists_def domIff)
  show ?thesis using skip convert_zip_success_file by blast
qed

theorem existing_output_is_skipped_witness:
  "convert_zip example_pandas patent_zip ''g_patent'' example_parquet ''granted'' converted_world =
     (Inr (), converted_world)
   \<and> fst (convert_zip example_pandas patent_zip ''g_patent'' example_parquet ''granted''
            patent_world) = Inr ()
   \<and> convert_zip example_pandas patent_zip ''g_patent'' example_parquet ''granted''
        (snd (convert_zip example_pandas patent_zip ''g_patent'' example_parquet ''granted''
                patent_world)) =
      (Inr (), snd (convert_zip example_pandas patent_zip ''g_patent'' example_parquet ''granted''
                      patent_world))"
proof -
  have ex: "example_parquet \<in> dom (parquet_files converted_world)"
    by (simp add: converted_world_def)
  note first = patent_world_run
  then have run: "convert_zip example_pandas patent_zip ''g_patent'' example_parquet ''granted''
        patent_world =
      (Inr (), snd (convert_zip example_pandas patent_zip ''g_patent'' example_parquet ''granted''
                      patent_world))"
    by (simp add: prod_eq_iff)
  show ?thesis
    using existing_output_is_skipped
        [of example_parquet converted_world example_pandas patent_zip "''g_patent''" "''granted''"]
      existing_output_is_skipped
        [of example_parquet patent_world example_pandas patent_zip "''g_patent''" "''granted''"
            "snd (convert_zip example_pandas patent_zip ''g_patent'' example_parquet ''granted''
                    patent_world)"]
      ex run first
    by blast
qed

text \<open>
  C8. For an archive that can be opened and holds no member whose name ends in \<open>.tsv\<close>,
  a job whose target does not exist yet fails: the error entry is appended to the
  conversion log of the dataset and the error is raised; no Parquet file is written and
  no member is opened.
\<close>

theorem empty_archive_fails:
  assumes "parquet \<notin> dom (parquet_files w)"
    and "archives w zip_path = Some infolist"
    and "\<forall>m\<in>set infolist. \<not> endswith (filename m) ''.tsv''"
  shows "fst (convert_zip L zip_path table parquet dataset w) = Inl NoTsvMembers
       \<and> logs (snd (convert_zip L zip_path table parquet dataset w))
            (BLD @ [''converted'', dataset, ''conversion_log.txt'']) =
          Some ((case logs w (BLD @ [''converted'', dataset, ''conversion_log.txt'']) of
                   None \<Rightarrow> [] | Some es \<Rightarrow> es)
                @ [LogError (path_name zip_path) NoTsvMembers])
       \<and> parquet_files (snd (convert_zip L zip_path table parquet dataset w)) = parquet_files w
       \<and> archive_reads (snd (convert_zip L zip_path table parquet dataset w)) = archive_reads w"
proof -
  have none: "filter (\<lambda>m. endswith (filename m) ''.tsv'') infolist = []"
    using assms(3) by (simp add: filter_empty_conv)
  show ?thesis
    using assms(1,2)
    by (simp add: convert_zip_def path_exists_def domIff Let_def none log_write_def
        log_open_append_def mkdir_parents_def)
qed

theorem empty_archive_fails_witness:
  "fst (convert_zip example_pandas patent_zip ''g_patent'' example_parquet ''granted''
          (converted_world\<lparr> parquet_files := Map.empty \<rparr>)) = Inl NoTsvMembers
   \<and> logs (snd (convert_zip example_pandas patent_zip ''g_patent'' example_parquet ''granted''
                  (converted_world\<lparr> parquet_files := Map.empty \<rparr>)))
        [''bld'', ''converted'', ''granted'', ''conversion_log.txt''] =
      Some [LogError ''g_patent.tsv.zip'' NoTsvMembers]"
proof -
  have a: "example_parquet \<notin> dom (parquet_files (converted_world\<lparr> parquet_files := Map.empty \<rparr>))"
    by simp
  have b: "archives (converted_world\<lparr> parquet_files := Map.empty \<rparr>) patent_zip =
      Some [\<lparr> filename = ''README.txt'', file_size = 12, content = [] \<rparr>]"
    by (simp add: converted_world_def)
  have c: "\<forall>m\<in>set [\<lparr> filename = ''README.txt'', file_size = 12, content = [] \<rparr>].
             \<not> endswith (filename m) ''.tsv''"
    by (simp add: endswith_def)
  have l: "logs converted_world [''bld'', ''converted'', ''granted'', ''conversion_log.txt''] = None"
    by (simp add: converted_world_def example_world_def)
  have n: "path_name patent_zip = ''g_patent.tsv.zip''"
    by (simp add: path_name_def patent_zip_def)
  show ?thesis
    using empty_archive_fails [OF a b c, of example_pandas "''g_patent''" "''granted''"]
    by (simp add: l n BLD_def)
qed

text \<open>
  C8, as stated for every archive, fails where the target exists already: the job returns
  before it looks at the archive, writes no log entry and raises nothing.
\<close>

theorem empty_archive_with_output_succeeds:
  "filter (\<lambda>m. endswith (filename m) ''.tsv'') (the (archives converted_world patent_zip)) = []
   \<and> convert_zip example_pandas patent_zip ''g_patent'' example_parquet ''granted'' converted_world =
       (Inr (), converted_world)"
  by (simp add: convert_zip_def path_exists_def converted_world_def endswith_def)

end
